theory Spec2Isabelle
  imports
    Main
    "HOL-Library.Char_ord"
    "HOL-Library.List_Lexorder"
    "HOL-Library.Product_Lexorder"
begin

section \<open>Daily notes generator: the embedding\<close>

text \<open>
  The program is \<^verbatim>\<open>daily_notes_generator.py\<close>. Its four functions
  \<^verbatim>\<open>get_all_notes\<close>, \<^verbatim>\<open>extract_undone_todos\<close>, \<^verbatim>\<open>aggregate_todos\<close> and
  \<^verbatim>\<open>create_daily_note\<close> are embedded below under their own names. The \<^verbatim>\<open>print\<close>
  calls only log and are left out. What the functions use of the Python library
  (\<^verbatim>\<open>datetime\<close>, \<^verbatim>\<open>re\<close>, \<^verbatim>\<open>str.splitlines\<close>, \<^verbatim>\<open>pathlib\<close>) is
  modelled first.

  A Python \<^verbatim>\<open>str\<close> is a \<^typ>\<open>string\<close>; a \<^typ>\<open>char\<close> stands for a code point
  below 256, so the model covers file names and file contents made of such code
  points. Among them the decimal digits are the ten ASCII digits.
\<close>

subsection \<open>Exceptions and values\<close>

datatype error = ValueError | OverflowError | OSError | UnicodeDecodeError

datatype pyval = PyNone | PyBool bool

subsection \<open>Calendar dates\<close>

text \<open>
  A \<^verbatim>\<open>datetime.date\<close> is represented by its proleptic Gregorian ordinal
  (\<^verbatim>\<open>date.toordinal()\<close>): 1 is 0001-01-01 and 3652059 is 9999-12-31. Dates compare
  as their ordinals do, and subtracting \<^verbatim>\<open>timedelta(days=k)\<close> subtracts \<open>k\<close>
  from the ordinal and raises \<^verbatim>\<open>OverflowError\<close> when the result is not positive.
  The conversions between ordinals and year, month, day follow \<^verbatim>\<open>_ymd2ord\<close> and
  \<^verbatim>\<open>_ord2ymd\<close> of the \<^verbatim>\<open>datetime\<close> module.
\<close>

type_synonym date = nat

definition is_leap :: "nat \<Rightarrow> bool" where
  "is_leap year = (year mod 4 = 0 \<and> (year mod 100 \<noteq> 0 \<or> year mod 400 = 0))"

definition days_before_year :: "nat \<Rightarrow> nat" where
  "days_before_year year =
     (let y = year - 1 in y * 365 + y div 4 - y div 100 + y div 400)"

definition DAYS_IN_MONTH :: "nat list" where
  "DAYS_IN_MONTH = [0, 31, 28, 31, 30, 31, 30, 31, 31, 30, 31, 30, 31]"

definition DAYS_BEFORE_MONTH :: "nat list" where
  "DAYS_BEFORE_MONTH = [0, 0, 31, 59, 90, 120, 151, 181, 212, 243, 273, 304, 334]"

text \<open>Both tables are read at a month between 1 and 12 only.\<close>

definition days_in_month :: "nat \<Rightarrow> nat \<Rightarrow> nat" where
  "days_in_month year month =
     (if month = 2 \<and> is_leap year then 29 else DAYS_IN_MONTH ! month)"

definition days_before_month :: "nat \<Rightarrow> nat \<Rightarrow> nat" where
  "days_before_month year month =
     DAYS_BEFORE_MONTH ! month + (if month > 2 \<and> is_leap year then 1 else 0)"

definition ymd2ord :: "nat \<Rightarrow> nat \<Rightarrow> nat \<Rightarrow> nat" where
  "ymd2ord year month day =
     days_before_year year + days_before_month year month + day"

text \<open>The constructor \<^verbatim>\<open>date(year, month, day)\<close> with its range checks.\<close>

definition new_date :: "nat \<Rightarrow> nat \<Rightarrow> nat \<Rightarrow> error + date" where
  "new_date year month day =
     (if \<not> (1 \<le> year \<and> year \<le> 9999) then Inl ValueError
      else if \<not> (1 \<le> month \<and> month \<le> 12) then Inl ValueError
      else if \<not> (1 \<le> day \<and> day \<le> days_in_month year month) then Inl ValueError
      else Inr (ymd2ord year month day))"

definition ord2ymd :: "nat \<Rightarrow> nat \<times> nat \<times> nat" where
  "ord2ymd ordinal =
     (let n0 = ordinal - 1;
          n400 = n0 div 146097; n1' = n0 mod 146097;
          n100 = n1' div 36524; n2 = n1' mod 36524;
          n4 = n2 div 1461; n3 = n2 mod 1461;
          n1 = n3 div 365; n = n3 mod 365;
          year = n400 * 400 + 1 + n100 * 100 + n4 * 4 + n1
      in if n1 = 4 \<or> n100 = 4 then (year - 1, 12, 31)
         else
           let leapyear = (n1 = 3 \<and> (n4 \<noteq> 24 \<or> n100 = 3));
               month = (n + 50) div 32;
               preceding = DAYS_BEFORE_MONTH ! month
                           + (if month > 2 \<and> leapyear then 1 else 0)
           in if preceding > n
              then let month' = month - 1;
                       preceding' = preceding
                         - (DAYS_IN_MONTH ! month'
                            + (if month' = 2 \<and> leapyear then 1 else 0))
                   in (year, month', n - preceding' + 1)
              else (year, month, n - preceding + 1))"

text \<open>\<^verbatim>\<open>d - timedelta(days=k)\<close>.\<close>

definition date_sub_days :: "date \<Rightarrow> nat \<Rightarrow> error + date" where
  "date_sub_days d k = (if k < d then Inr (d - k) else Inl OverflowError)"

subsection \<open>Formatting and parsing with \<^verbatim>\<open>DATE_FMT = "%Y-%m-%d"\<close>\<close>

definition digit_char :: "nat \<Rightarrow> char" where
  "digit_char n = ''0123456789'' ! (n mod 10)"

definition is_digit :: "char \<Rightarrow> bool" where
  "is_digit c = (c \<in> set ''0123456789'')"

definition digit_val :: "char \<Rightarrow> nat" where
  "digit_val c = length (takeWhile (\<lambda>d. d \<noteq> c) ''0123456789'')"

definition zfill2 :: "nat \<Rightarrow> string" where
  "zfill2 n = [digit_char (n div 10), digit_char n]"

definition zfill4 :: "nat \<Rightarrow> string" where
  "zfill4 n = [digit_char (n div 1000), digit_char (n div 100),
               digit_char (n div 10), digit_char n]"

text \<open>
  \<^verbatim>\<open>d.strftime("%Y-%m-%d")\<close>, with the year zero-padded to four digits as the
  library documents it. (The C library of some platforms leaves years below 1000
  unpadded; no statement below depends on how such a year is padded.)
\<close>

definition strftime :: "date \<Rightarrow> string" where
  "strftime d =
     (case ord2ymd d of (year, month, day) \<Rightarrow>
        zfill4 year @ ''-'' @ zfill2 month @ ''-'' @ zfill2 day)"

text \<open>
  \<^verbatim>\<open>datetime.strptime(s, "%Y-%m-%d").date()\<close>. The library turns the format into
  the regular expression
  \<^verbatim>\<open>(?P<Y>\d\d\d\d)-(?P<m>1[0-2]|0[1-9]|[1-9])-(?P<d>3[0-1]|[1-2]\d|0[1-9]|[1-9]| [1-9])\<close>,
  matches it at the start of the string, raises \<^verbatim>\<open>ValueError\<close> when it does not
  match or when text remains after the match, converts the three groups with
  \<^verbatim>\<open>int\<close> and builds the date, which raises \<^verbatim>\<open>ValueError\<close> for a year 0 or a day
  the month does not have. A group is modelled by the list of its matches at the
  start of a string, in the order of its alternatives, each with the text left.
\<close>

definition one_of :: "string \<Rightarrow> char \<Rightarrow> bool" where
  "one_of cs c = (c \<in> set cs)"

definition two_chars ::
  "(char \<Rightarrow> bool) \<Rightarrow> (char \<Rightarrow> bool) \<Rightarrow> string \<Rightarrow> (string \<times> string) list" where
  "two_chars p q s =
     (case s of
        c1 # c2 # r \<Rightarrow> if p c1 \<and> q c2 then [([c1, c2], r)] else []
      | _ \<Rightarrow> [])"

definition one_char :: "(char \<Rightarrow> bool) \<Rightarrow> string \<Rightarrow> (string \<times> string) list" where
  "one_char p s = (case s of c1 # r \<Rightarrow> if p c1 then [([c1], r)] else [] | _ \<Rightarrow> [])"

definition group_Y :: "string \<Rightarrow> (string \<times> string) list" where
  "group_Y s =
     (case s of
        c1 # c2 # c3 # c4 # r \<Rightarrow>
          if is_digit c1 \<and> is_digit c2 \<and> is_digit c3 \<and> is_digit c4
          then [([c1, c2, c3, c4], r)] else []
      | _ \<Rightarrow> [])"

definition group_m :: "string \<Rightarrow> (string \<times> string) list" where
  "group_m s =
     two_chars (one_of ''1'') (one_of ''012'') s
     @ two_chars (one_of ''0'') (one_of ''123456789'') s
     @ one_char (one_of ''123456789'') s"

definition group_d :: "string \<Rightarrow> (string \<times> string) list" where
  "group_d s =
     two_chars (one_of ''3'') (one_of ''01'') s
     @ two_chars (one_of ''12'') is_digit s
     @ two_chars (one_of ''0'') (one_of ''123456789'') s
     @ one_char (one_of ''123456789'') s
     @ two_chars (one_of '' '') (one_of ''123456789'') s"

definition hyphen :: "string \<Rightarrow> string list" where
  "hyphen s = (case s of c # r \<Rightarrow> if c = CHR ''-'' then [r] else [] | _ \<Rightarrow> [])"

text \<open>All matches of the whole expression, the one the matcher finds first.\<close>

definition format_matches :: "string \<Rightarrow> (string \<times> string \<times> string \<times> string) list" where
  "format_matches s =
     concat (map (\<lambda>(gY, r1).
       concat (map (\<lambda>r2.
         concat (map (\<lambda>(gm, r3).
           concat (map (\<lambda>r4.
             map (\<lambda>(gd, r5). (gY, gm, gd, r5)) (group_d r4))
           (hyphen r3)))
         (group_m r2)))
       (hyphen r1)))
     (group_Y s))"

text \<open>\<^verbatim>\<open>int\<close> of a matched group: decimal digits, blanks around them ignored.\<close>

definition py_int :: "string \<Rightarrow> nat" where
  "py_int s = foldl (\<lambda>a c. 10 * a + digit_val c) 0 (filter is_digit s)"

definition strptime :: "string \<Rightarrow> error + date" where
  "strptime s =
     (case format_matches s of
        [] \<Rightarrow> Inl ValueError
      | (gY, gm, gd, rest) # _ \<Rightarrow>
          if rest \<noteq> [] then Inl ValueError
          else new_date (py_int gY) (py_int gm) (py_int gd))"

subsection \<open>Lines and the todo pattern\<close>

text \<open>
  \<^verbatim>\<open>str.splitlines()\<close>: the line boundaries among the code points below 256 are
  LF, VT, FF, CR, FS, GS, RS and NEL; CR LF is one boundary; the boundaries are
  not part of the lines and a final boundary opens no further line.
\<close>

definition LF :: char where
  "LF = CHR 0x0A"

definition CR :: char where
  "CR = CHR 0x0D"

definition is_linebreak :: "char \<Rightarrow> bool" where
  "is_linebreak c =
     (c \<in> {CHR 0x0A, CHR 0x0B, CHR 0x0C, CHR 0x0D, CHR 0x1C, CHR 0x1D, CHR 0x1E, CHR 0x85})"

fun splitlines :: "string \<Rightarrow> string list" where
  "splitlines [] = []"
| "splitlines [c] = (if is_linebreak c then [[]] else [[c]])"
| "splitlines (c # d # ds) =
     (if c = CR \<and> d = LF then [] # splitlines ds
      else if is_linebreak c then [] # splitlines (d # ds)
      else (case splitlines (d # ds) of
              [] \<Rightarrow> [[c]]
            | l # ls \<Rightarrow> (c # l) # ls))"

definition starts_with :: "string \<Rightarrow> string \<Rightarrow> bool" where
  "starts_with p s = (take (length p) s = p)"

text \<open>
  \<^verbatim>\<open>TODO_PATTERN.match(line)\<close> for \<^verbatim>\<open>^- \[ \] (.+)\<close>: the result is group 1 when
  the pattern matches at the start of the line. The dot matches every character
  but LF and the group is greedy.
\<close>

definition TODO_PATTERN_match :: "string \<Rightarrow> string option" where
  "TODO_PATTERN_match line =
     (if starts_with ''- [ ] '' line
      then (let g = takeWhile (\<lambda>c. c \<noteq> LF) (drop 6 line)
            in if g \<noteq> [] then Some g else None)
      else None)"

subsection \<open>The notes directory\<close>

text \<open>
  The state of the world is the listing of \<^verbatim>\<open>notes_dir\<close> (each entry a name
  with what reading it gives, in the order the directory yields them; a
  directory that does not exist lists nothing), whether a file can be written
  there, the current date of the clock, and the trace of the file-system
  operations performed so far. \<^verbatim>\<open>Text s\<close> is a file that \<^verbatim>\<open>read_text\<close> decodes to
  \<open>s\<close>; \<^verbatim>\<open>Undecodable\<close> is a file that is not valid UTF-8; \<^verbatim>\<open>Unopenable\<close> is
  an entry that cannot be opened for reading (a directory, a file without read
  permission). A path in \<^verbatim>\<open>notes_dir\<close> is represented by its name.
\<close>

datatype content = Text string | Undecodable | Unopenable

datatype event = Exists string | Glob | ReadText string | Mkdir | WriteText string

record world =
  files :: "(string \<times> content) list"
  writable :: bool
  today :: date
  trace :: "event list"

definition log_event :: "event \<Rightarrow> world \<Rightarrow> world" where
  "log_event e w = w\<lparr>trace := trace w @ [e]\<rparr>"

definition path_exists :: "world \<Rightarrow> string \<Rightarrow> bool \<times> world" where
  "path_exists w name = (name \<in> set (map fst (files w)), log_event (Exists name) w)"

definition ends_with :: "string \<Rightarrow> string \<Rightarrow> bool" where
  "ends_with sfx s = (length sfx \<le> length s \<and> drop (length s - length sfx) s = sfx)"

text \<open>\<^verbatim>\<open>notes_dir.glob("*.md")\<close>: the names that end in \<^verbatim>\<open>.md\<close>.\<close>

definition glob_md :: "world \<Rightarrow> string list \<times> world" where
  "glob_md w = (filter (ends_with ''.md'') (map fst (files w)), log_event Glob w)"

text \<open>
  \<^verbatim>\<open>Path.stem\<close>: the name up to its last dot, when that dot is neither the first
  nor the last character; the whole name otherwise.
\<close>

definition rfind_dot :: "string \<Rightarrow> nat option" where
  "rfind_dot name =
     (if CHR ''.'' \<in> set name
      then Some (length name - 1 - length (takeWhile (\<lambda>c. c \<noteq> CHR ''.'') (rev name)))
      else None)"

definition stem :: "string \<Rightarrow> string" where
  "stem name =
     (case rfind_dot name of
        None \<Rightarrow> name
      | Some i \<Rightarrow> if 0 < i \<and> i < length name - 1 then take i name else name)"

definition read_text :: "world \<Rightarrow> string \<Rightarrow> (error + string) \<times> world" where
  "read_text w name =
     (case map_of (files w) name of
        Some (Text s) \<Rightarrow> Inr s
      | Some Undecodable \<Rightarrow> Inl UnicodeDecodeError
      | _ \<Rightarrow> Inl OSError,
      log_event (ReadText name) w)"

text \<open>
  \<^verbatim>\<open>notes_dir.mkdir(parents=True, exist_ok=True)\<close>: the directory is taken to
  exist or to be creatable, so this succeeds.
\<close>

definition mkdir :: "world \<Rightarrow> (error + unit) \<times> world" where
  "mkdir w = (Inr (), log_event Mkdir w)"

fun update_file :: "string \<Rightarrow> content \<Rightarrow> (string \<times> content) list \<Rightarrow> (string \<times> content) list" where
  "update_file name f [] = [(name, f)]"
| "update_file name f ((n, g) # rest) =
     (if n = name then (n, f) # rest else (n, g) # update_file name f rest)"

text \<open>
  \<^verbatim>\<open>open(fname, 'w', encoding='utf-8')\<close> followed by \<^verbatim>\<open>f.write(body)\<close>: creates
  the file or replaces its content, and raises \<^verbatim>\<open>OSError\<close> when the directory
  cannot be written.
\<close>

definition write_text :: "world \<Rightarrow> string \<Rightarrow> string \<Rightarrow> (error + unit) \<times> world" where
  "write_text w name body =
     (if writable w
      then (Inr (), log_event (WriteText name) (w\<lparr>files := update_file name (Text body) (files w)\<rparr>))
      else (Inl OSError, log_event (WriteText name) w))"

subsection \<open>\<^verbatim>\<open>get_all_notes\<close>\<close>

text \<open>
  The loop over the globbed paths: a stem that \<^verbatim>\<open>strptime\<close> rejects with
  \<^verbatim>\<open>ValueError\<close> is skipped by the \<^verbatim>\<open>except\<close> clause; any other exception would
  leave the function.
\<close>

fun scan_loop :: "string list \<Rightarrow> (date \<times> string) list \<Rightarrow> error + (date \<times> string) list" where
  "scan_loop [] notes = Inr notes"
| "scan_loop (md # mds) notes =
     (case strptime (stem md) of
        Inr note_date \<Rightarrow> scan_loop mds (notes @ [(note_date, md)])
      | Inl ValueError \<Rightarrow> scan_loop mds notes
      | Inl e \<Rightarrow> Inl e)"

definition get_all_notes :: "world \<Rightarrow> (error + (date \<times> string) list) \<times> world" where
  "get_all_notes w =
     (case glob_md w of (mds, w1) \<Rightarrow>
        (case scan_loop mds [] of
           Inl e \<Rightarrow> (Inl e, w1)
         | Inr notes \<Rightarrow> (Inr (sort notes), w1)))"

subsection \<open>\<^verbatim>\<open>extract_undone_todos\<close>\<close>

fun todo_loop :: "string list \<Rightarrow> string list \<Rightarrow> string list" where
  "todo_loop [] todos = todos"
| "todo_loop (line # rest) todos =
     (case TODO_PATTERN_match line of
        Some g \<Rightarrow> todo_loop rest (todos @ [g])
      | None \<Rightarrow> todo_loop rest todos)"

definition todos_of_text :: "string \<Rightarrow> string list" where
  "todos_of_text text = todo_loop (splitlines text) []"

definition extract_undone_todos :: "world \<Rightarrow> string \<Rightarrow> (error + string list) \<times> world" where
  "extract_undone_todos w note_path =
     (case read_text w note_path of
        (Inl e, w1) \<Rightarrow> (Inl e, w1)
      | (Inr text, w1) \<Rightarrow> (Inr (todos_of_text text), w1))"

subsection \<open>\<^verbatim>\<open>aggregate_todos\<close>\<close>

fun seen_loop :: "string list \<Rightarrow> string set \<times> string list \<Rightarrow> string set \<times> string list" where
  "seen_loop [] (seen, todos) = (seen, todos)"
| "seen_loop (todo # rest) (seen, todos) =
     (if todo \<notin> seen then seen_loop rest (insert todo seen, todos @ [todo])
      else seen_loop rest (seen, todos))"

fun notes_loop ::
  "world \<Rightarrow> (date \<times> string) list \<Rightarrow> string set \<times> string list
   \<Rightarrow> (error + string list) \<times> world" where
  "notes_loop w [] (seen, todos) = (Inr todos, w)"
| "notes_loop w ((d, note) # rest) (seen, todos) =
     (case extract_undone_todos w note of
        (Inl e, w1) \<Rightarrow> (Inl e, w1)
      | (Inr found, w1) \<Rightarrow> notes_loop w1 rest (seen_loop found (seen, todos)))"

definition aggregate_todos ::
  "world \<Rightarrow> (date \<times> string) list \<Rightarrow> (error + string list) \<times> world" where
  "aggregate_todos w past_notes = notes_loop w past_notes ({}, [])"

subsection \<open>\<^verbatim>\<open>create_daily_note\<close>\<close>

fun task_lines :: "string list \<Rightarrow> string" where
  "task_lines [] = []"
| "task_lines (t # ts) = ''- [ ] '' @ t @ [LF] @ task_lines ts"

definition render_body :: "string \<Rightarrow> string list \<Rightarrow> string" where
  "render_body heading todos =
     ''# '' @ heading @ [LF, LF]
     @ ''## Tasks'' @ [LF]
     @ (if todos \<noteq> [] then task_lines todos else ''- [ ] '' @ [LF])
     @ [LF]
     @ ''## Notes'' @ [LF] @ ''- '' @ [LF]"

definition in_window :: "date \<Rightarrow> date \<Rightarrow> date \<times> string \<Rightarrow> bool" where
  "in_window one_week_ago note_date n = (one_week_ago \<le> fst n \<and> fst n < note_date)"

definition create_daily_note :: "world \<Rightarrow> date option \<Rightarrow> (error + pyval) \<times> world" where
  "create_daily_note w arg =
     (let note_date = (case arg of None \<Rightarrow> today w | Some d \<Rightarrow> d);
          fname = strftime note_date @ ''.md''
      in case path_exists w fname of (ex, w1) \<Rightarrow>
         if ex then (Inr PyNone, w1)
         else
           (case date_sub_days note_date 7 of
              Inl e \<Rightarrow> (Inl e, w1)
            | Inr one_week_ago \<Rightarrow>
           (case get_all_notes w1 of
              (Inl e, w2) \<Rightarrow> (Inl e, w2)
            | (Inr all_notes, w2) \<Rightarrow>
           (let recent_notes = filter (in_window one_week_ago note_date) all_notes
            in case aggregate_todos w2 recent_notes of
              (Inl e, w3) \<Rightarrow> (Inl e, w3)
            | (Inr todos, w3) \<Rightarrow>
           (let body = render_body (strftime note_date) todos
            in case mkdir w3 of
              (Inl e, w4) \<Rightarrow> (Inl e, w4)
            | (Inr u, w4) \<Rightarrow>
           (case write_text w4 fname body of
              (Inl e, w5) \<Rightarrow> (Inl e, w5)
            | (Inr u', w5) \<Rightarrow> (Inr PyNone, w5)))))))"

section \<open>Notions used to state the properties\<close>

subsection \<open>Directories\<close>

text \<open>A directory that holds nothing yet and can be written, at any clock date.\<close>

definition fresh_directory :: "date \<Rightarrow> world" where
  "fresh_directory t = \<lparr>files = [], writable = True, today = t, trace = []\<rparr>"

text \<open>A text given by its lines, each terminated by a newline.\<close>

definition lines_text :: "string list \<Rightarrow> string" where
  "lines_text ls = concat (map (\<lambda>l. l @ [LF]) ls)"

text \<open>The date a call is for, the name of its note, and whether a name is in the directory.\<close>

definition target_date :: "world \<Rightarrow> date option \<Rightarrow> date" where
  "target_date w arg = (case arg of None \<Rightarrow> today w | Some d \<Rightarrow> d)"

definition note_name :: "date \<Rightarrow> string" where
  "note_name d = strftime d @ ''.md''"

definition present :: "world \<Rightarrow> string \<Rightarrow> bool" where
  "present w name = (name \<in> set (map fst (files w)))"

text \<open>A world after further file-system operations that change no file.\<close>

definition trace_more :: "event list \<Rightarrow> world \<Rightarrow> world" where
  "trace_more es w = w\<lparr>trace := trace w @ es\<rparr>"

subsection \<open>Reading notes\<close>

text \<open>
  A note is readable when \<^verbatim>\<open>read_text\<close> returns its text; the errors of reading are
  \<^verbatim>\<open>OSError\<close> and \<^verbatim>\<open>UnicodeDecodeError\<close>. \<open>note_todos\<close> is what
  \<^verbatim>\<open>extract_undone_todos\<close> returns for a note (nothing when it raises).
\<close>

definition readable :: "world \<Rightarrow> string \<Rightarrow> bool" where
  "readable w name = (case fst (read_text w name) of Inr s \<Rightarrow> True | Inl e \<Rightarrow> False)"

definition read_error :: "error \<Rightarrow> bool" where
  "read_error e = (e = OSError \<or> e = UnicodeDecodeError)"

definition note_todos :: "world \<Rightarrow> string \<Rightarrow> string list" where
  "note_todos w name =
     (case fst (extract_undone_todos w name) of Inr todos \<Rightarrow> todos | Inl e \<Rightarrow> [])"

text \<open>
  An unfinished todo line: the literal prefix \<^verbatim>\<open>- [ ] \<close> at the very start, followed
  by at least one character. A single-line text holds no line boundary.
\<close>

definition unfinished_line :: "string \<Rightarrow> bool" where
  "unfinished_line l = (take 6 l = ''- [ ] '' \<and> 6 < length l)"

definition single_line :: "string \<Rightarrow> bool" where
  "single_line t = (\<forall>c \<in> set t. \<not> is_linebreak c)"

subsection \<open>First occurrences\<close>

text \<open>
  The occurrences in a sequence that no equal element precedes, in their order:
  each distinct element once, at the place of its first occurrence.
\<close>

definition first_seen :: "'a list \<Rightarrow> 'a list" where
  "first_seen xs =
     map (\<lambda>i. xs ! i) (filter (\<lambda>i. xs ! i \<notin> set (take i xs)) [0..<length xs])"

text \<open>The same, with a set of elements that count as seen already.\<close>

fun fresh_from :: "'a set \<Rightarrow> 'a list \<Rightarrow> 'a list" where
  "fresh_from S [] = []"
| "fresh_from S (x # xs) = (if x \<in> S then fresh_from S xs else x # fresh_from (insert x S) xs)"

subsection \<open>The scan and the window\<close>

text \<open>
  \<open>scan\<close> is the list \<^verbatim>\<open>get_all_notes\<close> returns. \<open>dated\<close> pairs each name
  whose stem \<^verbatim>\<open>strptime\<close> accepts with its date and drops the others;
  \<open>md_names\<close> are the names of the directory that end in \<^verbatim>\<open>.md\<close>.
\<close>

definition scan :: "world \<Rightarrow> (date \<times> string) list" where
  "scan w = (case fst (get_all_notes w) of Inr ns \<Rightarrow> ns | Inl e \<Rightarrow> [])"

definition dated :: "string list \<Rightarrow> (date \<times> string) list" where
  "dated mds =
     concat (map (\<lambda>md. case strptime (stem md) of Inr d \<Rightarrow> [(d, md)] | Inl e \<Rightarrow> []) mds)"

definition md_names :: "world \<Rightarrow> string list" where
  "md_names w = filter (ends_with ''.md'') (map fst (files w))"

text \<open>
  The notes of the seven days before \<open>d\<close>, oldest first, and the todos carried
  over from them.
\<close>

definition window_notes :: "world \<Rightarrow> date \<Rightarrow> (date \<times> string) list" where
  "window_notes w d = filter (\<lambda>n. d - 7 \<le> fst n \<and> fst n < d) (scan w)"

definition carried_todos :: "world \<Rightarrow> date \<Rightarrow> string list" where
  "carried_todos w d = first_seen (concat (map (\<lambda>n. note_todos w (snd n)) (window_notes w d)))"

text \<open>
  The exact file-name format of the specification: four digits, a hyphen, two
  digits, a hyphen, two digits.
\<close>

definition exact_format :: "string \<Rightarrow> bool" where
  "exact_format s =
     (case s of
        [y1, y2, y3, y4, h1, m1, m2, h2, d1, d2] \<Rightarrow>
          list_all is_digit [y1, y2, y3, y4, m1, m2, d1, d2]
          \<and> h1 = CHR ''-'' \<and> h2 = CHR ''-''
      | _ \<Rightarrow> False)"

text \<open>
  What \<^verbatim>\<open>strptime\<close> accepts as the month and as the day of \<^verbatim>\<open>%Y-%m-%d\<close>: the month
  as 1 to 9, 01 to 09 or 10 to 12; the day as 1 to 9, 01 to 09, 10 to 31, or a blank
  and 1 to 9. \<open>parses\<close> says that \<^verbatim>\<open>strptime\<close> returns a date.
\<close>

definition month_field :: "string \<Rightarrow> bool" where
  "month_field m =
     (case m of
        [c] \<Rightarrow> one_of ''123456789'' c
      | [c1, c2] \<Rightarrow> (c1 = CHR ''0'' \<and> one_of ''123456789'' c2)
                     \<or> (c1 = CHR ''1'' \<and> one_of ''012'' c2)
      | _ \<Rightarrow> False)"

definition day_field :: "string \<Rightarrow> bool" where
  "day_field d =
     (case d of
        [c] \<Rightarrow> one_of ''123456789'' c
      | [c1, c2] \<Rightarrow> (c1 = CHR ''0'' \<and> one_of ''123456789'' c2)
                     \<or> (one_of ''12'' c1 \<and> is_digit c2)
                     \<or> (c1 = CHR ''3'' \<and> one_of ''01'' c2)
                     \<or> (c1 = CHR '' '' \<and> one_of ''123456789'' c2)
      | _ \<Rightarrow> False)"

definition parses :: "string \<Rightarrow> bool" where
  "parses s = (case strptime s of Inr d \<Rightarrow> True | Inl e \<Rightarrow> False)"

subsection \<open>Example directories\<close>

definition example_world :: "(string \<times> content) list \<Rightarrow> world" where
  "example_world fs = \<lparr>files = fs, writable = True, today = 738955, trace = []\<rparr>"

text \<open>A note with finished and unfinished todos and lines that only resemble them.\<close>

definition mixed_note :: string where
  "mixed_note = ''- [ ] buy  milk'' @ [LF] @ ''- [x] done thing'' @ [LF]
                @ '' - [ ] indented'' @ [LF] @ ''- [ ] '' @ [LF] @ ''- [ ] call bob''"

definition mixed_example :: world where
  "mixed_example = example_world [(''2024-03-05.md'', Text mixed_note)]"

text \<open>Two notes whose todos overlap, listed by the directory in the other order.\<close>

definition overlap_example :: world where
  "overlap_example = example_world
     [(''b.md'', Text (''- [ ] y'' @ [LF] @ ''- [ ] z'' @ [LF] @ ''- [ ] x'')),
      (''a.md'', Text (''- [ ] x'' @ [LF] @ ''- [ ] y'' @ [LF] @ ''- [ ] x''))]"

text \<open>A directory where a note of the window cannot be decoded.\<close>

definition unreadable_example :: world where
  "unreadable_example = example_world
     [(''2024-03-05.md'', Undecodable), (''2024-03-06.md'', Text ''- [ ] a'')]"

text \<open>A directory that already holds the note of 2024-03-10.\<close>

definition existing_example :: world where
  "existing_example = example_world [(''2024-03-10.md'', Text ''# my day'')]"

text \<open>
  Notes dated seven and eight days before 2024-03-10, the day before it, and that
  day itself under a name without the leading zero of the month.
\<close>

definition window_example :: world where
  "window_example = example_world
     [(''2024-03-09.md'', Text (''- [ ] nine'' @ [LF] @ ''- [ ] seven'')),
      (''2024-3-10.md'', Text ''- [ ] today''),
      (''2024-03-02.md'', Text ''- [ ] eight''),
      (''2024-03-03.md'', Text ''- [ ] seven'')]"

text \<open>A note of 0001-01-01, for a call for 0001-01-03.\<close>

definition first_week_example :: world where
  "first_week_example =
     \<lparr>files = [(''0001-01-01.md'', Text ''- [ ] a'')], writable = True, today = 3, trace = []\<rparr>"

text \<open>
  Names that are no dates, a name in the exact format, and a name that writes month
  and day without their leading zeros.
\<close>

definition lenient_example :: world where
  "lenient_example = example_world
     [(''2024-3-5.md'', Text ''- [ ] b''), (''notes.md'', Text ''- [ ] c''),
      (''2024-03-04.txt'', Text ''- [ ] d''), (''2024-03-04.md'', Text ''- [ ] a'')]"

text \<open>Two names for the same date.\<close>

definition duplicate_example :: world where
  "duplicate_example = example_world
     [(''2024-3-5.md'', Text ''- [ ] b''), (''2024-03-05.md'', Text ''- [ ] a'')]"

section \<open>Properties\<close>

lemmas date_defs = new_date_def days_in_month_def is_leap_def DAYS_IN_MONTH_def ymd2ord_def
  days_before_year_def days_before_month_def DAYS_BEFORE_MONTH_def ord2ymd_def Let_def

lemmas parse_defs = strptime_def format_matches_def group_Y_def group_m_def group_d_def
  hyphen_def two_chars_def one_char_def one_of_def is_digit_def py_int_def digit_val_def

lemmas format_defs = strftime_def zfill2_def zfill4_def digit_char_def

lemmas fs_defs = path_exists_def log_event_def glob_md_def ends_with_def read_text_def
  mkdir_def write_text_def stem_def rfind_dot_def

lemmas note_defs = create_daily_note_def get_all_notes_def aggregate_todos_def
  extract_undone_todos_def todos_of_text_def TODO_PATTERN_match_def starts_with_def
  render_body_def in_window_def date_sub_days_def Let_def

lemmas notion_defs = fresh_directory_def example_world_def lines_text_def target_date_def
  note_name_def present_def trace_more_def readable_def read_error_def note_todos_def
  unfinished_line_def single_line_def

subsection \<open>Auxiliary facts\<close>

lemma log_event_simps [simp]:
  "files (log_event e w) = files w"
  "writable (log_event e w) = writable w"
  "today (log_event e w) = today w"
  "trace (log_event e w) = trace w @ [e]"
  by (simp_all add: log_event_def)

lemma read_text_log [simp]: "fst (read_text (log_event e w) name) = fst (read_text w name)"
  by (simp add: read_text_def)

lemma read_text_snd [simp]: "snd (read_text w name) = log_event (ReadText name) w"
  by (simp add: read_text_def)

lemma read_text_error: "fst (read_text w name) = Inl e \<Longrightarrow> read_error e"
  by (auto simp: read_text_def read_error_def split: option.splits content.splits)

lemma extract_undone_todos_eq:
  "extract_undone_todos w name =
     (case fst (read_text w name) of Inl e \<Rightarrow> Inl e | Inr content \<Rightarrow> Inr (todos_of_text content),
      log_event (ReadText name) w)"
  by (simp add: extract_undone_todos_def read_text_def split: sum.splits)

lemma readable_log [simp]: "readable (log_event e w) name = readable w name"
  by (simp add: readable_def)

lemma note_todos_log [simp]: "note_todos (log_event e w) name = note_todos w name"
  by (simp add: note_todos_def extract_undone_todos_eq)

lemma seen_loop_eq: "seen_loop ts (S, acc) = (S \<union> set ts, acc @ fresh_from S ts)"
  by (induction ts arbitrary: S acc) auto

lemma fresh_from_append:
  "fresh_from S (xs @ ys) = fresh_from S xs @ fresh_from (S \<union> set xs) ys"
  by (induction xs arbitrary: S) (auto simp: insert_absorb)

lemma set_fresh_from: "set (fresh_from S xs) = set xs - S"
  by (induction xs arbitrary: S) auto

lemma distinct_fresh_from: "distinct (fresh_from S xs)"
  by (induction xs arbitrary: S) (auto simp: set_fresh_from)

lemma fresh_from_index:
  "fresh_from S xs =
     map (\<lambda>i. xs ! i) (filter (\<lambda>i. xs ! i \<notin> S \<union> set (take i xs)) [0..<length xs])"
proof (induction xs arbitrary: S)
  case Nil
  show ?case by simp
next
  case (Cons x xs)
  have upt: "[0..<length (x # xs)] = 0 # map Suc [0..<length xs]"
    by (simp add: upt_conv_Cons map_Suc_upt del: upt_Suc)
  show ?case
  proof (cases "x \<in> S")
    case True
    then have "(\<lambda>i. xs ! i \<notin> S \<and> xs ! i \<noteq> x \<and> xs ! i \<notin> set (take i xs))
             = (\<lambda>i. xs ! i \<notin> S \<and> xs ! i \<notin> set (take i xs))"
      by auto
    with True show ?thesis
      unfolding upt by (simp add: filter_map comp_def Cons.IH del: upt_Suc)
  next
    case False
    have "(\<lambda>i. xs ! i \<notin> S \<and> xs ! i \<noteq> x \<and> xs ! i \<notin> set (take i xs))
             = (\<lambda>i. xs ! i \<noteq> x \<and> xs ! i \<notin> S \<and> xs ! i \<notin> set (take i xs))"
      by auto
    with False show ?thesis
      unfolding upt by (simp add: filter_map comp_def Cons.IH del: upt_Suc)
  qed
qed

lemma fresh_from_first_seen: "fresh_from {} xs = first_seen xs"
  by (simp add: fresh_from_index first_seen_def)

lemma trace_more_simps [simp]:
  "files (trace_more es w) = files w"
  "writable (trace_more es w) = writable w"
  "today (trace_more es w) = today w"
  "trace (trace_more es w) = trace w @ es"
  by (simp_all add: trace_more_def)

lemma trace_more_log: "trace_more es (log_event e w) = trace_more (e # es) w"
  by (simp add: trace_more_def log_event_def)

lemma trace_more_Nil [simp]: "trace_more [] w = w"
  by (simp add: trace_more_def)

lemma notes_loop_readable:
  "\<forall>n \<in> set ps. readable w (snd n) \<Longrightarrow>
   notes_loop w ps (S, acc) =
     (Inr (acc @ fresh_from S (concat (map (\<lambda>n. note_todos w (snd n)) ps))),
      trace_more (map (\<lambda>n. ReadText (snd n)) ps) w)"
proof (induction ps arbitrary: w S acc)
  case Nil
  show ?case by simp
next
  case (Cons n ps)
  obtain d nm where n: "n = (d, nm)" by (cases n)
  from Cons.prems have r: "readable w nm" by (simp add: n)
  then obtain content where content: "fst (read_text w nm) = Inr content"
    by (auto simp: readable_def split: sum.splits)
  have todos: "note_todos w nm = todos_of_text content"
    by (simp add: note_todos_def extract_undone_todos_eq content)
  have rest: "\<forall>m \<in> set ps. readable (log_event (ReadText nm) w) (snd m)"
    using Cons.prems by simp
  show ?case
    by (simp add: n extract_undone_todos_eq content seen_loop_eq Cons.IH [OF rest] todos
        fresh_from_append trace_more_log)
qed

lemma notes_loop_unreadable:
  "n \<in> set ps \<Longrightarrow> \<not> readable w (snd n) \<Longrightarrow>
   \<exists>e w'. notes_loop w ps (S, acc) = (Inl e, w') \<and> read_error e \<and> files w' = files w
     \<and> writable w' = writable w"
proof (induction ps arbitrary: w S acc)
  case Nil
  then show ?case by simp
next
  case (Cons m ps)
  obtain d nm where m: "m = (d, nm)" by (cases m)
  show ?case
  proof (cases "fst (read_text w nm)")
    case (Inl e)
    then show ?thesis
      by (simp add: m extract_undone_todos_eq read_text_error)
  next
    case (Inr content)
    then have "readable w nm" by (simp add: readable_def)
    with Cons.prems m have "n \<in> set ps" by auto
    moreover have "\<not> readable (log_event (ReadText nm) w) (snd n)"
      using Cons.prems by simp
    ultimately obtain e w' where
      "notes_loop (log_event (ReadText nm) w) ps (seen_loop (todos_of_text content) (S, acc))
         = (Inl e, w')" "read_error e" "files w' = files w" "writable w' = writable w"
      using Cons.IH [of "log_event (ReadText nm) w" "fst (seen_loop (todos_of_text content) (S, acc))"
          "snd (seen_loop (todos_of_text content) (S, acc))"]
      by auto
    then show ?thesis
      by (simp add: m extract_undone_todos_eq Inr)
  qed
qed

lemma aggregate_todos_readable:
  "\<forall>n \<in> set ps. readable w (snd n) \<Longrightarrow>
   aggregate_todos w ps =
     (Inr (first_seen (concat (map (\<lambda>n. note_todos w (snd n)) ps))),
      trace_more (map (\<lambda>n. ReadText (snd n)) ps) w)"
  by (simp add: aggregate_todos_def notes_loop_readable fresh_from_first_seen)

lemma distinct_first_seen: "distinct (first_seen xs)"
  by (simp flip: fresh_from_first_seen add: distinct_fresh_from)

lemma set_first_seen: "set (first_seen xs) = set xs"
  by (simp flip: fresh_from_first_seen add: set_fresh_from)

lemma is_linebreak_LF [simp]: "is_linebreak LF"
  by (simp add: is_linebreak_def LF_def)

lemma is_linebreak_CR [simp]: "is_linebreak CR"
  by (simp add: is_linebreak_def CR_def)

lemma splitlines_lines: "\<forall>l \<in> set (splitlines s). \<forall>c \<in> set l. \<not> is_linebreak c"
proof (induction s rule: splitlines.induct)
  case 1
  show ?case by simp
next
  case (2 a)
  show ?case by simp
next
  case (3 a d ds)
  show ?case
  proof (cases "a = CR \<and> d = LF")
    case True
    with 3 show ?thesis by simp
  next
    case False
    note outer = this
    show ?thesis
    proof (cases "is_linebreak a")
      case True
      with 3 outer show ?thesis by auto
    next
      case False
      with 3 outer have IH: "\<forall>l \<in> set (splitlines (d # ds)). \<forall>c \<in> set l. \<not> is_linebreak c"
        by simp
      show ?thesis
      proof (cases "splitlines (d # ds)")
        case Nil
        with outer False show ?thesis by auto
      next
        case (Cons l ls)
        with IH outer False show ?thesis by auto
      qed
    qed
  qed
qed

lemma splitlines_no_linebreak:
  "l \<in> set (splitlines s) \<Longrightarrow> c \<in> set l \<Longrightarrow> \<not> is_linebreak c"
  using splitlines_lines by blast

lemma todo_loop_eq: "todo_loop ls acc = acc @ List.map_filter TODO_PATTERN_match ls"
  by (induction ls arbitrary: acc) (auto simp: List.map_filter_simps split: option.splits)

lemma TODO_PATTERN_match_line:
  assumes "\<forall>c \<in> set l. \<not> is_linebreak c"
  shows "TODO_PATTERN_match l = (if unfinished_line l then Some (drop 6 l) else None)"
proof -
  have "\<forall>c \<in> set (drop 6 l). c \<noteq> LF"
    using assms is_linebreak_LF by (metis in_set_dropD)
  then have tw: "takeWhile (\<lambda>c. c \<noteq> LF) (drop 6 l) = drop 6 l"
    by (simp add: takeWhile_eq_all_conv)
  have sw: "starts_with ''- [ ] '' l = (take 6 l = ''- [ ] '')"
    by (simp add: starts_with_def eval_nat_numeral)
  show ?thesis
    by (simp add: TODO_PATTERN_match_def unfinished_line_def Let_def tw sw)
qed

lemma todos_of_text_eq:
  "todos_of_text s = map (drop 6) (filter unfinished_line (splitlines s))"
proof -
  have "List.map_filter TODO_PATTERN_match ls = map (drop 6) (filter unfinished_line ls)"
    if "\<forall>l \<in> set ls. \<forall>c \<in> set l. \<not> is_linebreak c" for ls
    using that
    by (induction ls) (simp_all add: List.map_filter_simps TODO_PATTERN_match_line)
  then show ?thesis
    by (simp add: todos_of_text_def todo_loop_eq splitlines_no_linebreak)
qed

lemma splitlines_line:
  "\<forall>c \<in> set l. \<not> is_linebreak c \<Longrightarrow> splitlines (l @ LF # rest) = l # splitlines rest"
proof (induction l)
  case Nil
  have "LF \<noteq> CR" by (simp add: LF_def CR_def)
  then show ?case by (cases rest) simp_all
next
  case (Cons a l)
  then have a: "\<not> is_linebreak a" and IH: "splitlines (l @ LF # rest) = l # splitlines rest"
    by simp_all
  from a have "a \<noteq> CR" using is_linebreak_CR by blast
  obtain d ds where eq: "l @ LF # rest = d # ds"
    by (cases "l @ LF # rest") simp_all
  have "splitlines (a # d # ds) = (a # l) # splitlines rest"
    using a \<open>a \<noteq> CR\<close> IH by (simp add: eq)
  then show ?case by (simp add: eq)
qed

lemma splitlines_task_lines:
  "\<forall>t \<in> set ts. \<forall>c \<in> set t. \<not> is_linebreak c \<Longrightarrow>
   splitlines (task_lines ts @ rest) = map (\<lambda>t. ''- [ ] '' @ t) ts @ splitlines rest"
proof (induction ts)
  case Nil
  show ?case by simp
next
  case (Cons t ts)
  have nb: "\<forall>c \<in> set (''- [ ] '' @ t). \<not> is_linebreak c"
    using Cons.prems by (auto simp: is_linebreak_def)
  have "splitlines ((''- [ ] '' @ t) @ LF # (task_lines ts @ rest))
        = (''- [ ] '' @ t) # splitlines (task_lines ts @ rest)"
    using nb by (rule splitlines_line)
  then show ?case using Cons by simp
qed

lemma render_body_lines:
  assumes h: "\<forall>c \<in> set heading. \<not> is_linebreak c"
    and ts: "\<forall>t \<in> set todos. \<forall>c \<in> set t. \<not> is_linebreak c"
  shows "splitlines (render_body heading todos) =
     [''# '' @ heading, [], ''## Tasks'']
     @ (if todos \<noteq> [] then map (\<lambda>t. ''- [ ] '' @ t) todos else [''- [ ] ''])
     @ [[], ''## Notes'', ''- '']"
proof -
  have nb: "\<forall>c \<in> set (''# '' @ heading). \<not> is_linebreak c"
    using h by (auto simp: is_linebreak_def)
  have l1: "\<And>r. splitlines ((''# '' @ heading) @ LF # r) = (''# '' @ heading) # splitlines r"
    using nb by (rule splitlines_line)
  have l2: "\<And>r. splitlines ([] @ LF # r) = [] # splitlines r"
    by (rule splitlines_line) simp
  have l3: "\<And>r. splitlines (''## Tasks'' @ LF # r) = ''## Tasks'' # splitlines r"
    by (rule splitlines_line) (simp add: is_linebreak_def)
  have l4: "\<And>r. splitlines (''- [ ] '' @ LF # r) = ''- [ ] '' # splitlines r"
    by (rule splitlines_line) (simp add: is_linebreak_def)
  have l5: "\<And>r. splitlines (''## Notes'' @ LF # r) = ''## Notes'' # splitlines r"
    by (rule splitlines_line) (simp add: is_linebreak_def)
  have l6: "\<And>r. splitlines (''- '' @ LF # r) = ''- '' # splitlines r"
    by (rule splitlines_line) (simp add: is_linebreak_def)
  have tail: "splitlines (LF # ''## Notes'' @ LF # ''- '' @ [LF]) = [[], ''## Notes'', ''- '']"
    using l2 [of "''## Notes'' @ LF # ''- '' @ [LF]"] l5 [of "''- '' @ [LF]"] l6 [of "[]"]
    by simp
  have mid: "splitlines ((if todos \<noteq> [] then task_lines todos else ''- [ ] '' @ [LF])
                @ LF # ''## Notes'' @ LF # ''- '' @ [LF])
             = (if todos \<noteq> [] then map (\<lambda>t. ''- [ ] '' @ t) todos else [''- [ ] ''])
               @ [[], ''## Notes'', ''- '']"
  proof (cases "todos = []")
    case True
    then show ?thesis
      using l4 [of "LF # ''## Notes'' @ LF # ''- '' @ [LF]"] tail by simp
  next
    case False
    then show ?thesis
      using splitlines_task_lines [OF ts, of "LF # ''## Notes'' @ LF # ''- '' @ [LF]"] tail
      by simp
  qed
  have "render_body heading todos =
        (''# '' @ heading) @ LF # ([] @ LF # (''## Tasks'' @ LF #
          ((if todos \<noteq> [] then task_lines todos else ''- [ ] '' @ [LF])
                @ LF # ''## Notes'' @ LF # ''- '' @ [LF])))"
    by (simp add: render_body_def)
  then show ?thesis
    by (simp only: l1 l2 l3 mid) simp
qed

lemma new_date_error: "new_date y m d = Inl e \<Longrightarrow> e = ValueError"
  by (auto simp: new_date_def split: if_splits)

lemma strptime_error: "strptime s = Inl e \<Longrightarrow> e = ValueError"
  by (auto simp: strptime_def split: list.splits prod.splits if_splits dest: new_date_error)

lemma scan_loop_eq: "scan_loop mds acc = Inr (acc @ dated mds)"
proof (induction mds arbitrary: acc)
  case Nil
  show ?case by (simp add: dated_def)
next
  case (Cons md mds)
  have step: "dated (md # mds) =
      (case strptime (stem md) of Inr d \<Rightarrow> [(d, md)] | Inl e \<Rightarrow> []) @ dated mds"
    by (simp add: dated_def)
  show ?case
  proof (cases "strptime (stem md)")
    case (Inl e)
    then have "e = ValueError" by (rule strptime_error)
    with Inl show ?thesis by (simp add: step Cons.IH)
  next
    case (Inr d)
    then show ?thesis by (simp add: step Cons.IH)
  qed
qed

lemma get_all_notes_sort:
  "get_all_notes w = (Inr (sort (dated (md_names w))), log_event Glob w)"
  by (simp add: get_all_notes_def glob_md_def scan_loop_eq md_names_def)

lemma scan_eq: "scan w = sort (dated (md_names w))"
  by (simp add: scan_def get_all_notes_sort)

lemma get_all_notes_eq: "get_all_notes w = (Inr (scan w), log_event Glob w)"
  by (simp add: scan_eq get_all_notes_sort)

lemma update_file_absent:
  "name \<notin> set (map fst fs) \<Longrightarrow> update_file name f fs = fs @ [(name, f)]"
  by (induction fs) auto

lemma present_log [simp]: "present (log_event e w) name = present w name"
  by (simp add: present_def)

lemma scan_log [simp]: "scan (log_event e w) = scan w"
  by (simp add: scan_eq md_names_def)

lemma scan_trace [simp]: "scan (w\<lparr>trace := t\<rparr>) = scan w"
  by (simp add: scan_eq md_names_def)

lemma window_notes_log [simp]: "window_notes (log_event e w) d = window_notes w d"
  by (simp add: window_notes_def)

lemma in_window_eq: "in_window a b = (\<lambda>n. a \<le> fst n \<and> fst n < b)"
  by (rule ext) (simp add: in_window_def)

lemma create_present:
  "present w (note_name (target_date w arg)) \<Longrightarrow>
   create_daily_note w arg =
     (Inr PyNone, log_event (Exists (note_name (target_date w arg))) w)"
  by (simp add: create_daily_note_def path_exists_def present_def note_name_def target_date_def
      Let_def)

lemma create_overflow:
  "\<not> present w (note_name (target_date w arg)) \<Longrightarrow> target_date w arg \<le> 7 \<Longrightarrow>
   create_daily_note w arg =
     (Inl OverflowError, log_event (Exists (note_name (target_date w arg))) w)"
  by (simp add: create_daily_note_def path_exists_def present_def note_name_def target_date_def
      Let_def date_sub_days_def)

lemma create_read_error:
  assumes "\<not> present w (note_name (target_date w arg))" and "7 < target_date w arg"
    and "n \<in> set (window_notes w (target_date w arg))" and "\<not> readable w (snd n)"
  shows "\<exists>e w'. create_daily_note w arg = (Inl e, w') \<and> read_error e \<and> files w' = files w"
proof -
  let ?d = "target_date w arg"
  let ?w2 = "log_event Glob (log_event (Exists (note_name ?d)) w)"
  have "n \<in> set (window_notes ?w2 ?d)" "\<not> readable ?w2 (snd n)"
    using assms by simp_all
  then obtain e w' where
    "notes_loop ?w2 (window_notes ?w2 ?d) ({}, []) = (Inl e, w')" "read_error e"
    "files w' = files ?w2"
    using notes_loop_unreadable [of n "window_notes ?w2 ?d" ?w2 "{}" "[]"] by blast
  then show ?thesis
    using assms(1,2)
    by (simp add: create_daily_note_def path_exists_def present_def note_name_def target_date_def
        Let_def date_sub_days_def get_all_notes_eq in_window_eq aggregate_todos_def
        window_notes_def)
qed

lemma create_creates:
  assumes "\<not> present w (note_name (target_date w arg))" and "7 < target_date w arg"
    and "\<forall>n \<in> set (window_notes w (target_date w arg)). readable w (snd n)"
    and "writable w"
  shows "create_daily_note w arg =
     (Inr PyNone,
      (trace_more ([Exists (note_name (target_date w arg)), Glob]
                   @ map (\<lambda>n. ReadText (snd n)) (window_notes w (target_date w arg))
                   @ [Mkdir, WriteText (note_name (target_date w arg))]) w)
       \<lparr>files := files w @ [(note_name (target_date w arg),
           Text (render_body (strftime (target_date w arg))
                   (carried_todos w (target_date w arg))))]\<rparr>)"
proof -
  let ?d = "target_date w arg"
  let ?w2 = "log_event Glob (log_event (Exists (note_name ?d)) w)"
  have r: "\<forall>n \<in> set (window_notes ?w2 ?d). readable ?w2 (snd n)"
    using assms(3) by simp
  have agg: "aggregate_todos ?w2 (window_notes ?w2 ?d) =
     (Inr (carried_todos w ?d),
      trace_more (map (\<lambda>n. ReadText (snd n)) (window_notes w ?d)) ?w2)"
    using aggregate_todos_readable [OF r] by (simp add: carried_todos_def)
  have absent: "strftime ?d @ ''.md'' \<notin> set (map fst (files w))"
    using assms(1) by (simp add: present_def note_name_def)
  show ?thesis
    using assms(2,4) absent agg
    by (simp add: create_daily_note_def path_exists_def note_name_def
        Let_def date_sub_days_def get_all_notes_eq in_window_eq
        window_notes_def mkdir_def write_text_def update_file_absent
        trace_more_def log_event_def target_date_def [symmetric])
qed

lemma create_write_error:
  assumes "\<not> present w (note_name (target_date w arg))" and "7 < target_date w arg"
    and "\<forall>n \<in> set (window_notes w (target_date w arg)). readable w (snd n)"
    and "\<not> writable w"
  shows "\<exists>w'. create_daily_note w arg = (Inl OSError, w') \<and> files w' = files w"
proof -
  let ?d = "target_date w arg"
  let ?w2 = "log_event Glob (log_event (Exists (note_name ?d)) w)"
  have r: "\<forall>n \<in> set (window_notes ?w2 ?d). readable ?w2 (snd n)"
    using assms(3) by simp
  have agg: "aggregate_todos ?w2 (window_notes ?w2 ?d) =
     (Inr (carried_todos w ?d),
      trace_more (map (\<lambda>n. ReadText (snd n)) (window_notes w ?d)) ?w2)"
    using aggregate_todos_readable [OF r] by (simp add: carried_todos_def)
  have absent: "strftime ?d @ ''.md'' \<notin> set (map fst (files w))"
    using assms(1) by (simp add: present_def note_name_def)
  show ?thesis
    using assms(2,4) absent agg
    by (simp add: create_daily_note_def path_exists_def note_name_def
        Let_def date_sub_days_def get_all_notes_eq in_window_eq
        window_notes_def mkdir_def write_text_def
        target_date_def [symmetric])
qed

lemma digit_char_digit: "digit_char n \<in> set ''0123456789''"
proof -
  have "n mod 10 < length ''0123456789''" by simp
  then show ?thesis unfolding digit_char_def by (rule nth_mem)
qed

lemma digit_not_linebreak: "c \<in> set ''0123456789'' \<Longrightarrow> \<not> is_linebreak c"
  by (auto simp: is_linebreak_def)

lemma strftime_single_line: "single_line (strftime d)"
proof -
  have dc: "\<not> is_linebreak (digit_char n)" for n
    using digit_char_digit digit_not_linebreak by blast
  have hy: "\<not> is_linebreak (CHR ''-'')"
    by (simp add: is_linebreak_def)
  show ?thesis
    by (cases "ord2ymd d")
      (simp add: single_line_def strftime_def zfill2_def zfill4_def dc hy)
qed

lemma todos_of_text_elements:
  "t \<in> set (todos_of_text s) \<Longrightarrow> t \<noteq> [] \<and> single_line t"
proof -
  assume "t \<in> set (todos_of_text s)"
  then obtain l where l: "l \<in> set (splitlines s)" "unfinished_line l" "t = drop 6 l"
    by (auto simp: todos_of_text_eq)
  from l(1) have "\<forall>c \<in> set l. \<not> is_linebreak c"
    using splitlines_no_linebreak by blast
  then have "\<forall>c \<in> set (drop 6 l). \<not> is_linebreak c"
    by (meson in_set_dropD)
  with l(2,3) show ?thesis
    by (simp add: single_line_def unfinished_line_def)
qed

lemma note_todos_elements:
  "t \<in> set (note_todos w p) \<Longrightarrow> t \<noteq> [] \<and> single_line t"
  by (auto simp: note_todos_def extract_undone_todos_eq split: sum.splits
      dest: todos_of_text_elements)

lemma tasks_round_trip:
  "\<forall>t \<in> set ts. t \<noteq> [] \<Longrightarrow>
   map (drop 6) (filter unfinished_line (map (\<lambda>t. ''- [ ] '' @ t) ts)) = ts"
  by (induction ts) (simp_all add: unfinished_line_def)

lemma render_round_trip:
  assumes "single_line heading" and "\<forall>t \<in> set todos. t \<noteq> [] \<and> single_line t"
  shows "todos_of_text (render_body heading todos) = todos"
proof -
  have h: "\<forall>c \<in> set heading. \<not> is_linebreak c"
    using assms(1) by (simp add: single_line_def)
  have ts: "\<forall>t \<in> set todos. \<forall>c \<in> set t. \<not> is_linebreak c"
    using assms(2) by (simp add: single_line_def)
  have ne: "\<forall>t \<in> set todos. t \<noteq> []"
    using assms(2) by simp
  show ?thesis
  proof (cases "todos = []")
    case True
    have "splitlines (render_body heading []) =
        [''# '' @ heading, [], ''## Tasks'', ''- [ ] '', [], ''## Notes'', ''- '']"
      using render_body_lines [OF h, of "[]"] by simp
    then show ?thesis
      by (simp add: True todos_of_text_eq unfinished_line_def)
  next
    case False
    then show ?thesis
      by (simp add: todos_of_text_eq render_body_lines [OF h ts] tasks_round_trip [OF ne])
        (simp add: unfinished_line_def)
  qed
qed


lemma create_success:
  assumes "create_daily_note w arg = (Inr v, w1)"
  shows "v = PyNone \<and> present w1 (note_name (target_date w arg)) \<and> today w1 = today w"
proof (cases "present w (note_name (target_date w arg))")
  case True
  then show ?thesis
    using assms create_present [of w arg] by auto
next
  case absent: False
  show ?thesis
  proof (cases "7 < target_date w arg")
    case False
    then show ?thesis
      using assms absent create_overflow [of w arg] by simp
  next
    case week: True
    show ?thesis
    proof (cases "\<forall>n \<in> set (window_notes w (target_date w arg)). readable w (snd n)")
      case False
      then show ?thesis
        using assms absent week create_read_error [of w arg] by fastforce
    next
      case all_readable: True
      show ?thesis
      proof (cases "writable w")
        case False
        then show ?thesis
          using assms absent week all_readable create_write_error [of w arg] by fastforce
      next
        case True
        then show ?thesis
          using assms absent week all_readable create_creates [of w arg]
          by (auto simp: present_def)
      qed
    qed
  qed
qed

lemma map_of_new_file:
  "name \<notin> set (map fst fs) \<Longrightarrow> map_of (fs @ [(name, f)]) name = Some f"
  by (induction fs) auto

lemma note_name_2024_03_10: "note_name 738955 = ''2024-03-10.md''"
  by (simp add: note_name_def format_defs date_defs)

lemma stem_md: "stem (s @ ''.md'') = (if s = [] then ''.md'' else s)"
proof -
  have "takeWhile (\<lambda>c. c \<noteq> CHR ''.'') (rev (s @ ''.md'')) = ''dm''"
    by simp
  then show ?thesis
    by (simp add: stem_def rfind_dot_def)
qed

lemma strptime_examples:
  "strptime ''2024-03-02'' = Inr 738947"
  "strptime ''2024-03-03'' = Inr 738948"
  "strptime ''2024-03-04'' = Inr 738949"
  "strptime ''2024-03-05'' = Inr 738950"
  "strptime ''2024-03-06'' = Inr 738951"
  "strptime ''2024-03-09'' = Inr 738954"
  "strptime ''2024-03-10'' = Inr 738955"
  "strptime ''2024-3-5'' = Inr 738950"
  "strptime ''2024-3-10'' = Inr 738955"
  "strptime ''0001-01-01'' = Inr 1"
  "strptime ''0001-01-03'' = Inr 3"
  "strptime ''notes'' = Inl ValueError"
  by (simp_all add: parse_defs date_defs)

lemma dated_Cons:
  "dated (md # mds) =
     (case strptime (stem md) of Inr d \<Rightarrow> [(d, md)] | Inl e \<Rightarrow> []) @ dated mds"
  by (simp add: dated_def)

lemma dated_Nil: "dated [] = []"
  by (simp add: dated_def)

lemma scan_unreadable_example:
  "scan unreadable_example = [(738950, ''2024-03-05.md''), (738951, ''2024-03-06.md'')]"
proof -
  have "md_names unreadable_example = [''2024-03-05.md'', ''2024-03-06.md'']"
    by (simp add: md_names_def unreadable_example_def example_world_def ends_with_def)
  moreover have "stem ''2024-03-05.md'' = ''2024-03-05''" "stem ''2024-03-06.md'' = ''2024-03-06''"
    using stem_md [of "''2024-03-05''"] stem_md [of "''2024-03-06''"] by simp_all
  ultimately show ?thesis
    by (simp add: scan_eq dated_Cons dated_Nil strptime_examples)
qed


lemma set_carried_todos:
  "set (carried_todos w d) = (\<Union>n \<in> set (window_notes w d). set (note_todos w (snd n)))"
  by (simp add: carried_todos_def set_first_seen)

lemma carried_todos_elements:
  "t \<in> set (carried_todos w d) \<Longrightarrow> t \<noteq> [] \<and> single_line t"
  by (auto simp: set_carried_todos dest: note_todos_elements)

lemma scan_window_example:
  "scan window_example =
     [(738947, ''2024-03-02.md''), (738948, ''2024-03-03.md''), (738954, ''2024-03-09.md''),
      (738955, ''2024-3-10.md'')]"
proof -
  have "md_names window_example =
      [''2024-03-09.md'', ''2024-3-10.md'', ''2024-03-02.md'', ''2024-03-03.md'']"
    by (simp add: md_names_def window_example_def example_world_def ends_with_def)
  moreover have "stem ''2024-03-09.md'' = ''2024-03-09''" "stem ''2024-3-10.md'' = ''2024-3-10''"
    "stem ''2024-03-02.md'' = ''2024-03-02''" "stem ''2024-03-03.md'' = ''2024-03-03''"
    using stem_md [of "''2024-03-09''"] stem_md [of "''2024-3-10''"]
      stem_md [of "''2024-03-02''"] stem_md [of "''2024-03-03''"] by simp_all
  ultimately show ?thesis
    by (simp add: scan_eq dated_Cons dated_Nil strptime_examples)
qed

lemma note_todos_window_example:
  "note_todos window_example ''2024-03-02.md'' = [''eight'']"
  "note_todos window_example ''2024-03-03.md'' = [''seven'']"
  "note_todos window_example ''2024-03-09.md'' = [''nine'', ''seven'']"
  "note_todos window_example ''2024-3-10.md'' = [''today'']"
  by (simp_all add: note_todos_def extract_undone_todos_eq read_text_def example_world_def
      window_example_def todos_of_text_eq is_linebreak_def LF_def CR_def unfinished_line_def)

lemma scan_first_week_example: "scan first_week_example = [(1, ''0001-01-01.md'')]"
proof -
  have "md_names first_week_example = [''0001-01-01.md'']"
    by (simp add: md_names_def first_week_example_def ends_with_def)
  moreover have "stem ''0001-01-01.md'' = ''0001-01-01''"
    using stem_md [of "''0001-01-01''"] by simp
  ultimately show ?thesis
    by (simp add: scan_eq dated_Cons dated_Nil strptime_examples)
qed

lemma note_name_0001_01_03: "note_name 3 = ''0001-01-03.md''"
proof -
  have "ord2ymd 3 = (1, 1, 3)"
    by (simp add: date_defs)
  then show ?thesis
    by (simp add: note_name_def strftime_def zfill2_def zfill4_def digit_char_def)
qed


lemma sorted_map_fst: "sorted (xs :: (nat \<times> string) list) \<Longrightarrow> sorted (map fst xs)"
  by (induction xs) (auto simp: less_eq_prod_def)

lemma set_dated: "set (dated mds) = {(d, md). md \<in> set mds \<and> strptime (stem md) = Inr d}"
proof (induction mds)
  case Nil
  show ?case by (simp add: dated_Nil)
next
  case (Cons md mds)
  show ?case
    by (cases "strptime (stem md)") (auto simp: dated_Cons Cons.IH)
qed

lemma map_snd_dated: "map snd (dated mds) = filter (\<lambda>md. parses (stem md)) mds"
proof (induction mds)
  case Nil
  show ?case by (simp add: dated_Nil)
next
  case (Cons md mds)
  show ?case
    by (cases "strptime (stem md)") (simp_all add: dated_Cons Cons.IH parses_def)
qed

lemma distinct_map_snd_sort:
  "distinct (map snd (sort xs)) = distinct (map snd (xs :: (nat \<times> string) list))"
  by (simp add: distinct_map)

lemma scan_lenient_example:
  "scan lenient_example = [(738949, ''2024-03-04.md''), (738950, ''2024-3-5.md'')]"
proof -
  have "md_names lenient_example = [''2024-3-5.md'', ''notes.md'', ''2024-03-04.md'']"
    by (simp add: md_names_def lenient_example_def example_world_def ends_with_def)
  moreover have "stem ''2024-3-5.md'' = ''2024-3-5''" "stem ''notes.md'' = ''notes''"
    "stem ''2024-03-04.md'' = ''2024-03-04''"
    using stem_md [of "''2024-3-5''"] stem_md [of "''notes''"] stem_md [of "''2024-03-04''"]
    by simp_all
  ultimately show ?thesis
    by (simp add: scan_eq dated_Cons dated_Nil strptime_examples)
qed

lemma scan_duplicate_example:
  "scan duplicate_example = [(738950, ''2024-03-05.md''), (738950, ''2024-3-5.md'')]"
proof -
  have "md_names duplicate_example = [''2024-3-5.md'', ''2024-03-05.md'']"
    by (simp add: md_names_def duplicate_example_def example_world_def ends_with_def)
  moreover have "stem ''2024-3-5.md'' = ''2024-3-5''" "stem ''2024-03-05.md'' = ''2024-03-05''"
    using stem_md [of "''2024-3-5''"] stem_md [of "''2024-03-05''"] by simp_all
  ultimately show ?thesis
    by (simp add: scan_eq dated_Cons dated_Nil strptime_examples)
qed


lemma group_Y_mem:
  "(g, r) \<in> set (group_Y s) \<Longrightarrow> s = g @ r \<and> length g = 4 \<and> list_all is_digit g"
  by (auto simp: group_Y_def split: list.splits if_splits)

lemma hyphen_mem: "r \<in> set (hyphen s) \<Longrightarrow> s = CHR ''-'' # r"
  by (auto simp: hyphen_def split: list.splits if_splits)

lemma two_chars_mem:
  "(g, r) \<in> set (two_chars p q s) \<Longrightarrow> (\<exists>c1 c2. g = [c1, c2] \<and> p c1 \<and> q c2) \<and> s = g @ r"
  by (auto simp: two_chars_def split: list.splits if_splits)

lemma one_char_mem:
  "(g, r) \<in> set (one_char p s) \<Longrightarrow> (\<exists>c. g = [c] \<and> p c) \<and> s = g @ r"
  by (auto simp: one_char_def split: list.splits if_splits)

lemma group_m_mem: "(g, r) \<in> set (group_m s) \<Longrightarrow> s = g @ r \<and> month_field g"
  by (auto simp: group_m_def month_field_def one_of_def dest!: two_chars_mem one_char_mem)

lemma group_d_mem: "(g, r) \<in> set (group_d s) \<Longrightarrow> s = g @ r \<and> day_field g"
  by (auto simp: group_d_def day_field_def one_of_def dest!: two_chars_mem one_char_mem)

lemma format_matches_mem:
  assumes "(gY, gm, gd, r) \<in> set (format_matches s)"
  shows "s = gY @ ''-'' @ gm @ ''-'' @ gd @ r \<and> length gY = 4 \<and> list_all is_digit gY
         \<and> month_field gm \<and> day_field gd"
proof -
  from assms obtain r1 r2 r3 r4 where
    "(gY, r1) \<in> set (group_Y s)" "r2 \<in> set (hyphen r1)" "(gm, r3) \<in> set (group_m r2)"
    "r4 \<in> set (hyphen r3)" "(gd, r) \<in> set (group_d r4)"
    by (auto simp: format_matches_def)
  then show ?thesis
    by (auto dest!: group_Y_mem hyphen_mem group_m_mem group_d_mem)
qed


lemma group_Y_digits:
  assumes "length y = 4" and "list_all is_digit y"
  shows "group_Y (y @ r) = [(y, r)]"
proof -
  from assms(1) obtain a b c d where "y = [a, b, c, d]"
    by (auto simp: length_Suc_conv eval_nat_numeral)
  with assms(2) show ?thesis
    by (simp add: group_Y_def)
qed

lemma month_field_cases:
  assumes "month_field m"
  obtains c where "m = [c]" "one_of ''123456789'' c"
  | c2 where "m = [CHR ''0'', c2]" "one_of ''123456789'' c2"
  | c2 where "m = [CHR ''1'', c2]" "one_of ''012'' c2"
  using assms by (auto simp: month_field_def split: list.splits)

lemma day_field_cases:
  assumes "day_field d"
  obtains c where "d = [c]" "one_of ''123456789'' c"
  | c2 where "d = [CHR ''0'', c2]" "one_of ''123456789'' c2"
  | c1 c2 where "d = [c1, c2]" "one_of ''12'' c1" "is_digit c2"
  | c2 where "d = [CHR ''3'', c2]" "one_of ''01'' c2"
  | c2 where "d = [CHR '' '', c2]" "one_of ''123456789'' c2"
  using assms by (auto simp: day_field_def split: list.splits)

lemma one_of_single: "one_of [a] c = (c = a)"
  by (simp add: one_of_def)

lemma not_one_of_hyphen:
  "\<not> one_of ''012'' (CHR ''-'')" "\<not> one_of ''123456789'' (CHR ''-'')"
  "\<not> one_of ''123456789'' (CHR ''0'')" "one_of ''123456789'' (CHR ''1'')"
  "\<not> one_of ''123456789'' (CHR '' '')" "one_of ''123456789'' (CHR ''3'')"
  "\<not> one_of ''12'' (CHR ''0'')" "\<not> one_of ''12'' (CHR ''3'')" "\<not> one_of ''12'' (CHR '' '')"
  by (simp_all add: one_of_def)

lemma group_m_month:
  assumes "month_field m"
  shows "\<exists>cands. group_m (m @ CHR ''-'' # r) = (m, CHR ''-'' # r) # cands
          \<and> (\<forall>c \<in> set cands. hyphen (snd c) = [])"
  using assms
proof (cases rule: month_field_cases)
  case (1 c)
  then show ?thesis
    by (simp add: group_m_def two_chars_def one_char_def not_one_of_hyphen)
next
  case (2 c2)
  then show ?thesis
    by (simp add: group_m_def two_chars_def one_char_def not_one_of_hyphen one_of_single)
next
  case (3 c2)
  then have "c2 \<noteq> CHR ''-''"
    by (auto simp: one_of_def)
  with 3 show ?thesis
    by (simp add: group_m_def two_chars_def one_char_def not_one_of_hyphen one_of_single
        hyphen_def)
qed

lemma group_d_day:
  assumes "day_field d"
  shows "\<exists>cands. group_d d = (d, []) # cands"
  using assms
proof (cases rule: day_field_cases)
  case (1 c)
  then show ?thesis
    by (simp add: group_d_def two_chars_def one_char_def)
next
  case (2 c2)
  then show ?thesis
    by (simp add: group_d_def two_chars_def one_char_def not_one_of_hyphen one_of_single)
next
  case (3 c1 c2)
  then have "c1 \<noteq> CHR ''3''"
    by (auto simp: one_of_def)
  with 3 show ?thesis
    by (simp add: group_d_def two_chars_def one_char_def one_of_single)
next
  case (4 c2)
  then show ?thesis
    by (simp add: group_d_def two_chars_def one_char_def one_of_single)
next
  case (5 c2)
  then show ?thesis
    by (simp add: group_d_def two_chars_def one_char_def not_one_of_hyphen one_of_single)
qed

lemma concat_map_no_hyphen:
  "\<forall>c \<in> set cands. hyphen (snd c) = [] \<Longrightarrow>
   concat (map (\<lambda>(gm, r3). concat (map (f gm) (hyphen r3))) cands) = []"
  by (induction cands) auto

lemma format_matches_fields:
  assumes "length y = 4" and "list_all is_digit y" and "month_field m" and "day_field d"
  shows "\<exists>more. format_matches (y @ ''-'' @ m @ ''-'' @ d) = (y, m, d, []) # more"
proof -
  obtain cm where cm: "group_m (m @ CHR ''-'' # d) = (m, CHR ''-'' # d) # cm"
    "\<forall>c \<in> set cm. hyphen (snd c) = []"
    using group_m_month [OF assms(3)] by blast
  obtain cd where cd: "group_d d = (d, []) # cd"
    using group_d_day [OF assms(4)] by blast
  have Y: "group_Y (y @ CHR ''-'' # m @ CHR ''-'' # d) = [(y, CHR ''-'' # m @ CHR ''-'' # d)]"
    using assms(1,2) by (rule group_Y_digits)
  have rest: "concat (map (\<lambda>(gm, r3).
        concat (map (\<lambda>r4. map (\<lambda>(gd, r5). (y, gm, gd, r5)) (group_d r4)) (hyphen r3))) cm) = []"
    using cm(2) by (rule concat_map_no_hyphen)
  show ?thesis
    by (simp add: format_matches_def Y cm(1) cd rest hyphen_def)
qed

lemma strptime_fields:
  assumes "length y = 4" and "list_all is_digit y" and "month_field m" and "day_field d"
  shows "strptime (y @ ''-'' @ m @ ''-'' @ d) = new_date (py_int y) (py_int m) (py_int d)"
proof -
  obtain more where "format_matches (y @ ''-'' @ m @ ''-'' @ d) = (y, m, d, []) # more"
    using format_matches_fields [OF assms] by blast
  then show ?thesis
    by (simp add: strptime_def)
qed

lemma strptime_iff:
  "strptime s = Inr d \<longleftrightarrow>
     (\<exists>y m dd. s = y @ ''-'' @ m @ ''-'' @ dd \<and> length y = 4 \<and> list_all is_digit y
        \<and> month_field m \<and> day_field dd
        \<and> new_date (py_int y) (py_int m) (py_int dd) = Inr d)"
proof
  assume ok: "strptime s = Inr d"
  then obtain gY gm gd more where fm: "format_matches s = (gY, gm, gd, []) # more"
    and nd: "new_date (py_int gY) (py_int gm) (py_int gd) = Inr d"
    by (auto simp: strptime_def split: list.splits prod.splits if_splits)
  then have "(gY, gm, gd, []) \<in> set (format_matches s)"
    by simp
  from format_matches_mem [OF this] nd
  show "\<exists>y m dd. s = y @ ''-'' @ m @ ''-'' @ dd \<and> length y = 4 \<and> list_all is_digit y
        \<and> month_field m \<and> day_field dd
        \<and> new_date (py_int y) (py_int m) (py_int dd) = Inr d"
    by auto
next
  assume "\<exists>y m dd. s = y @ ''-'' @ m @ ''-'' @ dd \<and> length y = 4 \<and> list_all is_digit y
        \<and> month_field m \<and> day_field dd
        \<and> new_date (py_int y) (py_int m) (py_int dd) = Inr d"
  then show "strptime s = Inr d"
    using strptime_fields by auto
qed


subsection \<open>The empty-window scenario\<close>

text \<open>
  Claim C9. The date 2024-03-10 is the ordinal 738955. In a fresh empty
  directory, \<^verbatim>\<open>create_daily_note\<close> for that date checks that the note is absent,
  scans the directory, and writes \<^verbatim>\<open>2024-03-10.md\<close> with exactly the seven lines
  \<^verbatim>\<open># 2024-03-10\<close>, a blank line, \<^verbatim>\<open>## Tasks\<close>, the empty checklist line
  \<^verbatim>\<open>- [ ] \<close>, a blank line, \<^verbatim>\<open>## Notes\<close> and the empty bullet \<^verbatim>\<open>- \<close>, each
  terminated by a newline; the directory then holds this file and nothing else.
\<close>

theorem fresh_directory_note:
  "strptime ''2024-03-10'' = Inr 738955 \<and>
   create_daily_note (fresh_directory t) (Some 738955) =
     (Inr PyNone,
      \<lparr>files = [(''2024-03-10.md'',
           Text (lines_text [''# 2024-03-10'', [], ''## Tasks'', ''- [ ] '', [],
                             ''## Notes'', ''- '']))],
       writable = True, today = t,
       trace = [Exists ''2024-03-10.md'', Glob, Mkdir, WriteText ''2024-03-10.md'']\<rparr>)"
proof
  show "strptime ''2024-03-10'' = Inr 738955"
    by (simp add: parse_defs date_defs)
next
  have name: "strftime 738955 = ''2024-03-10''"
    by (simp add: format_defs date_defs)
  show "create_daily_note (fresh_directory t) (Some 738955) =
     (Inr PyNone,
      \<lparr>files = [(''2024-03-10.md'',
           Text (lines_text [''# 2024-03-10'', [], ''## Tasks'', ''- [ ] '', [],
                             ''## Notes'', ''- '']))],
       writable = True, today = t,
       trace = [Exists ''2024-03-10.md'', Glob, Mkdir, WriteText ''2024-03-10.md'']\<rparr>)"
    by (simp add: note_defs fs_defs name fresh_directory_def lines_text_def)
qed

subsection \<open>Extraction of unfinished todos\<close>

text \<open>
  Claim C6. For a note whose text can be read, \<^verbatim>\<open>extract_undone_todos\<close> returns, in
  the order of the lines of the file, exactly the suffixes after the first six
  characters of those lines that start with the literal \<^verbatim>\<open>- [ ] \<close> and go on with at
  least one character; the suffix is kept as it is. Every other line contributes
  nothing: a completed todo \<^verbatim>\<open>- [x] \<close>, a line with anything (a blank, say) before
  the prefix, and the bare prefix are not matched.
\<close>

theorem extract_undone_todos_exact:
  assumes "fst (read_text w path) = Inr content"
  shows "fst (extract_undone_todos w path) =
           Inr (map (drop 6) (filter unfinished_line (splitlines content)))
         \<and> TODO_PATTERN_match (''- [x] '' @ t) = None
         \<and> TODO_PATTERN_match (c # ''- [ ] '' @ t) = None
         \<and> TODO_PATTERN_match ''- [ ] '' = None"
proof -
  have "fst (extract_undone_todos w path) = Inr (todos_of_text content)"
    by (simp add: extract_undone_todos_eq assms)
  moreover have "TODO_PATTERN_match (''- [x] '' @ t) = None"
    by (simp add: TODO_PATTERN_match_def starts_with_def)
  moreover have "TODO_PATTERN_match (c # ''- [ ] '' @ t) = None"
    by (simp add: TODO_PATTERN_match_def starts_with_def)
  moreover have "TODO_PATTERN_match ''- [ ] '' = None"
    by (simp add: TODO_PATTERN_match_def starts_with_def)
  ultimately show ?thesis
    by (simp add: todos_of_text_eq)
qed

theorem extract_undone_todos_exact_witness:
  "fst (read_text mixed_example ''2024-03-05.md'') = Inr mixed_note
   \<and> fst (extract_undone_todos mixed_example ''2024-03-05.md'')
       = Inr [''buy  milk'', ''call bob'']"
proof -
  have h: "fst (read_text mixed_example ''2024-03-05.md'') = Inr mixed_note"
    by (simp add: read_text_def example_world_def mixed_example_def)
  have lines: "splitlines mixed_note =
      [''- [ ] buy  milk'', ''- [x] done thing'', '' - [ ] indented'', ''- [ ] '',
       ''- [ ] call bob'']"
    by (simp add: mixed_note_def is_linebreak_def LF_def CR_def)
  show ?thesis
    using h extract_undone_todos_exact [OF h, of "[]" "CHR ''x''"]
    by (simp add: lines unfinished_line_def)
qed

subsection \<open>Aggregation\<close>

text \<open>
  Claim C7. For a sequence of notes that can all be read, \<^verbatim>\<open>aggregate_todos\<close>
  returns the first occurrences of the todo texts in the concatenation of what
  \<^verbatim>\<open>extract_undone_todos\<close> gives for the notes in the given order (lines top to
  bottom within a note): every distinct text exactly once, at the place of its first
  occurrence, an occurrence seen in an earlier note or line being dropped. The empty
  sequence gives the empty list and no error.
\<close>

theorem aggregate_todos_first_seen:
  assumes "\<forall>n \<in> set past_notes. readable w (snd n)"
  shows "fst (aggregate_todos w past_notes) =
           Inr (first_seen (concat (map (\<lambda>n. note_todos w (snd n)) past_notes)))
         \<and> distinct (first_seen (concat (map (\<lambda>n. note_todos w (snd n)) past_notes)))
         \<and> set (first_seen (concat (map (\<lambda>n. note_todos w (snd n)) past_notes)))
             = (\<Union>n \<in> set past_notes. set (note_todos w (snd n)))
         \<and> fst (aggregate_todos w []) = Inr []"
proof -
  have "fst (aggregate_todos w []) = Inr []"
    by (simp add: aggregate_todos_def)
  then show ?thesis
    using assms by (simp add: aggregate_todos_readable distinct_first_seen set_first_seen)
qed

theorem aggregate_todos_first_seen_witness:
  "readable overlap_example ''a.md'' \<and> readable overlap_example ''b.md''
   \<and> fst (aggregate_todos overlap_example [(738949, ''a.md''), (738950, ''b.md'')])
       = Inr [''x'', ''y'', ''z'']"
proof -
  have h: "\<forall>n \<in> set [(738949, ''a.md''), (738950, ''b.md'')]. readable overlap_example (snd n)"
    by (simp add: readable_def read_text_def example_world_def overlap_example_def)
  have a: "note_todos overlap_example ''a.md'' = [''x'', ''y'', ''x'']"
    by (simp add: note_todos_def extract_undone_todos_eq read_text_def example_world_def
        overlap_example_def todos_of_text_eq is_linebreak_def LF_def CR_def unfinished_line_def)
  have b: "note_todos overlap_example ''b.md'' = [''y'', ''z'', ''x'']"
    by (simp add: note_todos_def extract_undone_todos_eq read_text_def example_world_def
        overlap_example_def todos_of_text_eq is_linebreak_def LF_def CR_def unfinished_line_def)
  have f: "first_seen [''x'', ''y'', ''x'', ''y'', ''z'', ''x''] = [''x'', ''y'', ''z'']"
    by (simp add: first_seen_def)
  show ?thesis
    using h aggregate_todos_first_seen [OF h]
    by (simp add: a b f)
qed

subsection \<open>Rendering and extraction\<close>

text \<open>
  Claim C10. For every list of todo texts that are nonempty and single-line (no line
  boundary of \<^verbatim>\<open>splitlines\<close> in them), extracting the todos from the body that
  \<^verbatim>\<open>create_daily_note\<close> renders for the list gives the list back, in order; this is
  so for the text itself and for \<^verbatim>\<open>extract_undone_todos\<close> on a note that holds it. For
  the empty list the rendered placeholder \<^verbatim>\<open>- [ ] \<close> is not captured, because the
  pattern wants a character after the prefix, and the extraction is empty.
\<close>

theorem render_extract_round_trip:
  assumes "\<forall>t \<in> set todos. t \<noteq> [] \<and> single_line t"
  shows "todos_of_text (render_body (strftime d) todos) = todos
         \<and> (fst (read_text w path) = Inr (render_body (strftime d) todos)
              \<longrightarrow> fst (extract_undone_todos w path) = Inr todos)
         \<and> todos_of_text (render_body (strftime d) []) = []
         \<and> TODO_PATTERN_match ''- [ ] '' = None"
proof -
  have "todos_of_text (render_body (strftime d) todos) = todos"
    using strftime_single_line assms by (rule render_round_trip)
  moreover have "todos_of_text (render_body (strftime d) []) = []"
    using strftime_single_line by (rule render_round_trip) simp
  moreover have "TODO_PATTERN_match ''- [ ] '' = None"
    by (simp add: TODO_PATTERN_match_def starts_with_def)
  ultimately show ?thesis
    by (simp add: extract_undone_todos_eq)
qed

theorem render_extract_round_trip_witness:
  "''buy milk'' \<noteq> [] \<and> single_line ''buy milk'' \<and> ''call  bob'' \<noteq> [] \<and> single_line ''call  bob''
   \<and> render_body (strftime 738955) [''buy milk'', ''call  bob''] =
       lines_text [''# 2024-03-10'', [], ''## Tasks'', ''- [ ] buy milk'', ''- [ ] call  bob'', [],
                   ''## Notes'', ''- '']
   \<and> todos_of_text (render_body (strftime 738955) [''buy milk'', ''call  bob''])
       = [''buy milk'', ''call  bob'']"
proof -
  have h: "\<forall>t \<in> set [''buy milk'', ''call  bob'']. t \<noteq> [] \<and> single_line t"
    by (simp add: single_line_def is_linebreak_def)
  have name: "strftime 738955 = ''2024-03-10''"
    by (simp add: format_defs date_defs)
  have body: "render_body ''2024-03-10'' [''buy milk'', ''call  bob''] =
       lines_text [''# 2024-03-10'', [], ''## Tasks'', ''- [ ] buy milk'', ''- [ ] call  bob'', [],
                   ''## Notes'', ''- '']"
    by (simp add: render_body_def lines_text_def)
  show ?thesis
    using h render_extract_round_trip [OF h, of 738955]
    by (simp add: name body)
qed

subsection \<open>Unreadable notes\<close>

text \<open>
  Claim C8. A note that cannot be read makes \<^verbatim>\<open>extract_undone_todos\<close> raise the
  error of the read (\<^verbatim>\<open>OSError\<close>, or \<^verbatim>\<open>UnicodeDecodeError\<close> for a file that is
  not UTF-8). The error leaves \<^verbatim>\<open>aggregate_todos\<close> when any of its notes is such a
  note, and leaves \<^verbatim>\<open>create_daily_note\<close> when the note is absent, the window can be
  computed and a note of the window is such a note: the call returns nothing, and the
  directory is left as it was, so no note with a partial list is written.
\<close>

theorem unreadable_note_fails:
  "(\<not> readable w path \<longrightarrow>
      (\<exists>e. fst (extract_undone_todos w path) = Inl e \<and> read_error e))
   \<and> (n \<in> set past_notes \<and> \<not> readable w (snd n) \<longrightarrow>
      (\<exists>e w'. aggregate_todos w past_notes = (Inl e, w') \<and> read_error e
               \<and> files w' = files w))
   \<and> (\<not> present w (note_name (target_date w arg)) \<and> 7 < target_date w arg
        \<and> n \<in> set (window_notes w (target_date w arg)) \<and> \<not> readable w (snd n) \<longrightarrow>
      (\<exists>e w'. create_daily_note w arg = (Inl e, w') \<and> read_error e
               \<and> files w' = files w))"
proof (intro conjI impI)
  assume "\<not> readable w path"
  then show "\<exists>e. fst (extract_undone_todos w path) = Inl e \<and> read_error e"
    by (cases "fst (read_text w path)")
      (auto simp: readable_def extract_undone_todos_eq dest: read_text_error)
next
  assume "n \<in> set past_notes \<and> \<not> readable w (snd n)"
  then show "\<exists>e w'. aggregate_todos w past_notes = (Inl e, w') \<and> read_error e
               \<and> files w' = files w"
    using notes_loop_unreadable [of n past_notes w "{}" "[]"]
    by (auto simp: aggregate_todos_def)
next
  assume "\<not> present w (note_name (target_date w arg)) \<and> 7 < target_date w arg
        \<and> n \<in> set (window_notes w (target_date w arg)) \<and> \<not> readable w (snd n)"
  then show "\<exists>e w'. create_daily_note w arg = (Inl e, w') \<and> read_error e
               \<and> files w' = files w"
    using create_read_error by blast
qed


theorem unreadable_note_fails_witness:
  "\<not> readable unreadable_example ''2024-03-05.md''
   \<and> \<not> present unreadable_example (note_name (target_date unreadable_example None))
   \<and> 7 < target_date unreadable_example None
   \<and> (738950, ''2024-03-05.md'')
        \<in> set (window_notes unreadable_example (target_date unreadable_example None))
   \<and> fst (extract_undone_todos unreadable_example ''2024-03-05.md'') = Inl UnicodeDecodeError
   \<and> (\<exists>e w'. aggregate_todos unreadable_example (scan unreadable_example) = (Inl e, w')
         \<and> read_error e \<and> files w' = files unreadable_example)
   \<and> (\<exists>e w'. create_daily_note unreadable_example None = (Inl e, w') \<and> read_error e
         \<and> files w' = files unreadable_example)"
proof -
  have t: "target_date unreadable_example None = 738955"
    by (simp add: target_date_def unreadable_example_def example_world_def)
  have r: "\<not> readable unreadable_example ''2024-03-05.md''"
    by (simp add: readable_def read_text_def unreadable_example_def example_world_def)
  have p: "\<not> present unreadable_example (note_name (target_date unreadable_example None))"
    by (simp only: t note_name_2024_03_10)
      (simp add: present_def unreadable_example_def example_world_def)
  have m: "(738950, ''2024-03-05.md'')
        \<in> set (window_notes unreadable_example (target_date unreadable_example None))"
    by (simp add: t window_notes_def scan_unreadable_example)
  have s: "(738950, ''2024-03-05.md'') \<in> set (scan unreadable_example)"
    by (simp add: scan_unreadable_example)
  have e: "fst (extract_undone_todos unreadable_example ''2024-03-05.md'') = Inl UnicodeDecodeError"
    by (simp add: extract_undone_todos_eq read_text_def unreadable_example_def example_world_def)
  have k: "7 < target_date unreadable_example None"
    by (simp add: t)
  show ?thesis
    using r p m s e k
      unreadable_note_fails [of unreadable_example "''2024-03-05.md''"
        "(738950, ''2024-03-05.md'')" "scan unreadable_example" None]
    by simp
qed

subsection \<open>An existing note\<close>

text \<open>
  Claim C2. When the note of the target date is already in the directory,
  \<^verbatim>\<open>create_daily_note\<close> returns with the world as it was but for one more entry in the
  trace of file-system operations, the existence check: no scan of the directory,
  no read and no write, and every file, the existing note among them, as it was.
  After a call that returned (having created the note, or having found it), a second
  call for the same date is such a call: it leaves the files as the first call left
  them.
\<close>

theorem existing_note_untouched:
  "(present w (note_name (target_date w arg)) \<longrightarrow>
      create_daily_note w arg =
        (Inr PyNone, w\<lparr>trace := trace w @ [Exists (note_name (target_date w arg))]\<rparr>))
   \<and> (create_daily_note w arg = (Inr v, w1) \<longrightarrow>
      create_daily_note w1 arg =
        (Inr PyNone, w1\<lparr>trace := trace w1 @ [Exists (note_name (target_date w arg))]\<rparr>)
      \<and> files (snd (create_daily_note w1 arg)) = files w1)"
proof (intro conjI impI)
  assume "present w (note_name (target_date w arg))"
  then show "create_daily_note w arg =
      (Inr PyNone, w\<lparr>trace := trace w @ [Exists (note_name (target_date w arg))]\<rparr>)"
    by (simp add: create_present log_event_def)
next
  assume first: "create_daily_note w arg = (Inr v, w1)"
  then have "present w1 (note_name (target_date w arg))" and "today w1 = today w"
    using create_success by blast+
  moreover from this have "target_date w1 arg = target_date w arg"
    by (simp add: target_date_def split: option.splits)
  ultimately show second: "create_daily_note w1 arg =
      (Inr PyNone, w1\<lparr>trace := trace w1 @ [Exists (note_name (target_date w arg))]\<rparr>)"
    using create_present [of w1 arg] by (simp add: log_event_def)
  show "files (snd (create_daily_note w1 arg)) = files w1"
    by (simp add: second)
qed

theorem existing_note_untouched_witness:
  "present existing_example (note_name (target_date existing_example None))
   \<and> create_daily_note existing_example None =
       (Inr PyNone, existing_example\<lparr>trace := [Exists ''2024-03-10.md'']\<rparr>)
   \<and> create_daily_note (fresh_directory 738955) None =
       (Inr PyNone,
        \<lparr>files = [(''2024-03-10.md'',
             Text (lines_text [''# 2024-03-10'', [], ''## Tasks'', ''- [ ] '', [],
                               ''## Notes'', ''- '']))],
         writable = True, today = 738955,
         trace = [Exists ''2024-03-10.md'', Glob, Mkdir, WriteText ''2024-03-10.md'']\<rparr>)
   \<and> create_daily_note
        \<lparr>files = [(''2024-03-10.md'',
             Text (lines_text [''# 2024-03-10'', [], ''## Tasks'', ''- [ ] '', [],
                               ''## Notes'', ''- '']))],
         writable = True, today = 738955,
         trace = [Exists ''2024-03-10.md'', Glob, Mkdir, WriteText ''2024-03-10.md'']\<rparr> None =
       (Inr PyNone,
        \<lparr>files = [(''2024-03-10.md'',
             Text (lines_text [''# 2024-03-10'', [], ''## Tasks'', ''- [ ] '', [],
                               ''## Notes'', ''- '']))],
         writable = True, today = 738955,
         trace = [Exists ''2024-03-10.md'', Glob, Mkdir, WriteText ''2024-03-10.md'',
                  Exists ''2024-03-10.md'']\<rparr>)"
proof -
  let ?w1 = "\<lparr>files = [(''2024-03-10.md'',
             Text (lines_text [''# 2024-03-10'', [], ''## Tasks'', ''- [ ] '', [],
                               ''## Notes'', ''- '']))],
         writable = True, today = 738955,
         trace = [Exists ''2024-03-10.md'', Glob, Mkdir, WriteText ''2024-03-10.md'']\<rparr>"
  have t: "target_date existing_example None = 738955"
    by (simp add: target_date_def existing_example_def example_world_def)
  have p: "present existing_example (note_name (target_date existing_example None))"
    by (simp only: t note_name_2024_03_10)
      (simp add: present_def existing_example_def example_world_def)
  have t': "target_date (fresh_directory 738955) None = 738955"
    by (simp add: target_date_def fresh_directory_def)
  have name: "strftime 738955 = ''2024-03-10''"
    by (simp add: format_defs date_defs)
  have first: "create_daily_note (fresh_directory 738955) None = (Inr PyNone, ?w1)"
    by (simp add: note_defs fs_defs name fresh_directory_def lines_text_def)
  show ?thesis
    using p first
      existing_note_untouched [of existing_example None]
      existing_note_untouched [of "fresh_directory 738955" None PyNone ?w1]
    by (simp only: t t' note_name_2024_03_10)
      (simp add: existing_example_def example_world_def)
qed


subsection \<open>The value returned\<close>

text \<open>
  Claim C1 says that the call returns a boolean, false when the note exists and true
  when it creates it. The function returns \<^verbatim>\<open>None\<close> on both paths: in a directory
  that holds the note of 2024-03-10 the value is not \<^verbatim>\<open>False\<close>, and in a fresh
  directory, where the note is created, it is not \<^verbatim>\<open>True\<close>.
\<close>

theorem returns_boolean_counterexample:
  "present existing_example (note_name (target_date existing_example None))
   \<and> fst (create_daily_note existing_example None) = Inr PyNone
   \<and> fst (create_daily_note existing_example None) \<noteq> Inr (PyBool False)
   \<and> \<not> present (fresh_directory 738955) (note_name (target_date (fresh_directory 738955) None))
   \<and> present (snd (create_daily_note (fresh_directory 738955) None))
        (note_name (target_date (fresh_directory 738955) None))
   \<and> fst (create_daily_note (fresh_directory 738955) None) = Inr PyNone
   \<and> fst (create_daily_note (fresh_directory 738955) None) \<noteq> Inr (PyBool True)"
proof -
  have t: "target_date existing_example None = 738955"
    by (simp add: target_date_def existing_example_def example_world_def)
  have t': "target_date (fresh_directory 738955) None = 738955"
    by (simp add: target_date_def fresh_directory_def)
  have p: "present existing_example (note_name (target_date existing_example None))"
    by (simp only: t note_name_2024_03_10)
      (simp add: present_def existing_example_def example_world_def)
  have a: "\<not> present (fresh_directory 738955)
             (note_name (target_date (fresh_directory 738955) None))"
    by (simp add: present_def fresh_directory_def)
  have k: "7 < target_date (fresh_directory 738955) None"
    by (simp add: t')
  have s: "scan (fresh_directory 738955) = []"
    by (simp add: scan_eq md_names_def fresh_directory_def dated_Nil)
  have r: "\<forall>n \<in> set (window_notes (fresh_directory 738955)
              (target_date (fresh_directory 738955) None)).
             readable (fresh_directory 738955) (snd n)"
    by (simp add: window_notes_def s)
  have w: "writable (fresh_directory 738955)"
    by (simp add: fresh_directory_def)
  show ?thesis
    using p a create_present [OF p] create_creates [OF a k r w]
    by (simp add: present_def)
qed

text \<open>
  Claim C1, amended. \<^verbatim>\<open>create_daily_note\<close> returns \<^verbatim>\<open>None\<close> whenever it returns.
  When the note of the target date is in the directory, it returns \<^verbatim>\<open>None\<close> and
  leaves the files as they are. When the note is absent, the target date is after
  0001-01-07, the notes of the window can be read and the directory can be written, it
  returns \<^verbatim>\<open>None\<close> after adding the note, with the rendered body, to the directory.
  Whether a note was created shows in the directory, not in the value.
\<close>

theorem create_daily_note_returns_None:
  "(present w (note_name (target_date w arg)) \<longrightarrow>
      fst (create_daily_note w arg) = Inr PyNone
      \<and> files (snd (create_daily_note w arg)) = files w)
   \<and> (\<not> present w (note_name (target_date w arg)) \<and> 7 < target_date w arg
        \<and> (\<forall>n \<in> set (window_notes w (target_date w arg)). readable w (snd n))
        \<and> writable w \<longrightarrow>
      fst (create_daily_note w arg) = Inr PyNone
      \<and> files (snd (create_daily_note w arg)) =
          files w @ [(note_name (target_date w arg),
                      Text (render_body (strftime (target_date w arg))
                              (carried_todos w (target_date w arg))))])
   \<and> (fst (create_daily_note w arg) = Inr v \<longrightarrow> v = PyNone)"
proof (intro conjI impI)
  assume "present w (note_name (target_date w arg))"
  then show "fst (create_daily_note w arg) = Inr PyNone"
    and "files (snd (create_daily_note w arg)) = files w"
    by (simp_all add: create_present)
next
  assume h: "\<not> present w (note_name (target_date w arg)) \<and> 7 < target_date w arg
        \<and> (\<forall>n \<in> set (window_notes w (target_date w arg)). readable w (snd n))
        \<and> writable w"
  then show "fst (create_daily_note w arg) = Inr PyNone"
    by (simp add: create_creates)
  from h show "files (snd (create_daily_note w arg)) =
          files w @ [(note_name (target_date w arg),
                      Text (render_body (strftime (target_date w arg))
                              (carried_todos w (target_date w arg))))]"
    by (simp add: create_creates)
next
  assume "fst (create_daily_note w arg) = Inr v"
  then have "create_daily_note w arg = (Inr v, snd (create_daily_note w arg))"
    by (metis prod.collapse)
  then show "v = PyNone"
    using create_success by blast
qed

theorem create_daily_note_returns_None_witness:
  "present existing_example (note_name (target_date existing_example None))
   \<and> fst (create_daily_note existing_example None) = Inr PyNone
   \<and> files (snd (create_daily_note existing_example None)) = files existing_example
   \<and> \<not> present window_example (note_name (target_date window_example None))
   \<and> 7 < target_date window_example None
   \<and> readable window_example ''2024-03-03.md'' \<and> readable window_example ''2024-03-09.md''
   \<and> writable window_example
   \<and> fst (create_daily_note window_example None) = Inr PyNone
   \<and> files (snd (create_daily_note window_example None)) =
       files window_example @
       [(''2024-03-10.md'',
         Text (lines_text [''# 2024-03-10'', [], ''## Tasks'', ''- [ ] seven'', ''- [ ] nine'', [],
                           ''## Notes'', ''- '']))]"
proof -
  have t: "target_date existing_example None = 738955"
    by (simp add: target_date_def existing_example_def example_world_def)
  have p: "present existing_example (note_name (target_date existing_example None))"
    by (simp only: t note_name_2024_03_10)
      (simp add: present_def existing_example_def example_world_def)
  have t': "target_date window_example None = 738955"
    by (simp add: target_date_def window_example_def example_world_def)
  have a: "\<not> present window_example (note_name (target_date window_example None))"
    by (simp only: t' note_name_2024_03_10)
      (simp add: present_def window_example_def example_world_def)
  have k: "7 < target_date window_example None"
    by (simp add: t')
  have win: "window_notes window_example 738955 =
      [(738948, ''2024-03-03.md''), (738954, ''2024-03-09.md'')]"
    by (simp add: window_notes_def scan_window_example)
  have r3: "readable window_example ''2024-03-03.md''"
    and r9: "readable window_example ''2024-03-09.md''"
    by (simp_all add: readable_def read_text_def window_example_def example_world_def)
  have r: "\<forall>n \<in> set (window_notes window_example (target_date window_example None)).
             readable window_example (snd n)"
    by (simp add: t' win r3 r9)
  have w: "writable window_example"
    by (simp add: window_example_def example_world_def)
  have c: "carried_todos window_example 738955 = [''seven'', ''nine'']"
    by (simp add: carried_todos_def win note_todos_window_example first_seen_def)
  have name: "strftime 738955 = ''2024-03-10''"
    by (simp add: format_defs date_defs)
  have body: "render_body ''2024-03-10'' [''seven'', ''nine''] =
      lines_text [''# 2024-03-10'', [], ''## Tasks'', ''- [ ] seven'', ''- [ ] nine'', [],
                  ''## Notes'', ''- '']"
    by (simp add: render_body_def lines_text_def)
  show ?thesis
    using p a k r3 r9 r w
      create_daily_note_returns_None [of existing_example None]
      create_daily_note_returns_None [of window_example None]
    by (simp only: t t' note_name_2024_03_10 c name body) simp
qed

subsection \<open>The window\<close>

text \<open>
  Claim C3 speaks of every target date. For the target 0001-01-03, with a note of
  0001-01-01 that holds an unfinished todo and so lies in the seven days before the
  target, \<^verbatim>\<open>create_daily_note\<close> raises \<^verbatim>\<open>OverflowError\<close> when it subtracts the seven
  days, and carries nothing over: the directory is as it was.
\<close>

theorem window_counterexample:
  "strptime ''0001-01-03'' = Inr 3
   \<and> scan first_week_example = [(1, ''0001-01-01.md'')]
   \<and> note_todos first_week_example ''0001-01-01.md'' = [''a'']
   \<and> fst (create_daily_note first_week_example (Some 3)) = Inl OverflowError
   \<and> files (snd (create_daily_note first_week_example (Some 3))) = files first_week_example"
proof -
  have a: "\<not> present first_week_example (note_name (target_date first_week_example (Some 3)))"
    by (simp add: present_def first_week_example_def target_date_def note_name_0001_01_03)
  have k: "target_date first_week_example (Some 3) \<le> 7"
    by (simp add: target_date_def)
  have n: "note_todos first_week_example ''0001-01-01.md'' = [''a'']"
    by (simp add: note_todos_def extract_undone_todos_eq read_text_def
        first_week_example_def todos_of_text_eq is_linebreak_def LF_def CR_def
        unfinished_line_def)
  show ?thesis
    using create_overflow [OF a k]
    by (simp add: strptime_examples scan_first_week_example n)
qed

text \<open>
  Claim C3, amended. For every target date after 0001-01-07, when the note is absent,
  the notes of the window can be read and the directory can be written,
  \<^verbatim>\<open>create_daily_note\<close> writes the note whose body renders the carried todos; the
  todos extracted from that body are the carried todos again, and the carried todos
  are exactly the todos of the scanned notes whose date \<open>n\<close> satisfies
  \<open>d - 7 \<le> n < d\<close>. So a todo of a note dated \<open>d - 7\<close> is in the Tasks section,
  every todo of the section comes from a note of the window, and a note dated \<open>d\<close>
  or \<open>d - 8\<close> is not in the window.
\<close>

theorem window_exact:
  assumes "\<not> present w (note_name (target_date w arg))" and "7 < target_date w arg"
    and "\<forall>n \<in> set (window_notes w (target_date w arg)). readable w (snd n)"
    and "writable w"
  shows "fst (create_daily_note w arg) = Inr PyNone
     \<and> map_of (files (snd (create_daily_note w arg))) (note_name (target_date w arg)) =
         Some (Text (render_body (strftime (target_date w arg))
                       (carried_todos w (target_date w arg))))
     \<and> todos_of_text (render_body (strftime (target_date w arg))
                        (carried_todos w (target_date w arg)))
         = carried_todos w (target_date w arg)
     \<and> set (carried_todos w (target_date w arg)) =
         (\<Union>n \<in> {n \<in> set (scan w). target_date w arg - 7 \<le> fst n \<and> fst n < target_date w arg}.
            set (note_todos w (snd n)))
     \<and> (\<forall>p t. (target_date w arg - 7, p) \<in> set (scan w) \<and> t \<in> set (note_todos w p)
            \<longrightarrow> t \<in> set (carried_todos w (target_date w arg)))
     \<and> (\<forall>t \<in> set (carried_todos w (target_date w arg)).
            \<exists>n \<in> set (scan w). target_date w arg - 7 \<le> fst n \<and> fst n < target_date w arg
               \<and> t \<in> set (note_todos w (snd n)))
     \<and> (\<forall>p. (target_date w arg, p) \<notin> set (window_notes w (target_date w arg))
            \<and> (target_date w arg - 8, p) \<notin> set (window_notes w (target_date w arg)))"
proof -
  let ?d = "target_date w arg"
  have absent: "note_name ?d \<notin> set (map fst (files w))"
    using assms(1) by (simp add: present_def)
  have 1: "fst (create_daily_note w arg) = Inr PyNone"
    using assms by (simp add: create_creates)
  have 2: "map_of (files (snd (create_daily_note w arg))) (note_name ?d) =
         Some (Text (render_body (strftime ?d) (carried_todos w ?d)))"
    using assms map_of_new_file [OF absent] by (simp add: create_creates)
  have 3: "todos_of_text (render_body (strftime ?d) (carried_todos w ?d)) = carried_todos w ?d"
    using strftime_single_line carried_todos_elements render_round_trip by blast
  have 4: "set (carried_todos w ?d) =
         (\<Union>n \<in> {n \<in> set (scan w). ?d - 7 \<le> fst n \<and> fst n < ?d}. set (note_todos w (snd n)))"
    by (simp add: set_carried_todos window_notes_def)
  have 5: "\<forall>p t. (?d - 7, p) \<in> set (scan w) \<and> t \<in> set (note_todos w p)
            \<longrightarrow> t \<in> set (carried_todos w ?d)"
    using assms(2) by (force simp: 4)
  have 6: "\<forall>t \<in> set (carried_todos w ?d).
            \<exists>n \<in> set (scan w). ?d - 7 \<le> fst n \<and> fst n < ?d \<and> t \<in> set (note_todos w (snd n))"
  proof
    fix t
    assume "t \<in> set (carried_todos w ?d)"
    then obtain n where "n \<in> set (scan w)" "?d - 7 \<le> fst n" "fst n < ?d"
      "t \<in> set (note_todos w (snd n))"
      by (auto simp: 4)
    then show "\<exists>n \<in> set (scan w). ?d - 7 \<le> fst n \<and> fst n < ?d
        \<and> t \<in> set (note_todos w (snd n))"
      by blast
  qed
  have 7: "\<forall>p. (?d, p) \<notin> set (window_notes w ?d) \<and> (?d - 8, p) \<notin> set (window_notes w ?d)"
    using assms(2) by (auto simp: window_notes_def)
  from 1 2 3 4 5 6 7 show ?thesis by blast
qed

theorem window_exact_witness:
  "\<not> present window_example (note_name (target_date window_example None))
   \<and> 7 < target_date window_example None
   \<and> readable window_example ''2024-03-03.md'' \<and> readable window_example ''2024-03-09.md''
   \<and> writable window_example
   \<and> scan window_example =
       [(738955 - 8, ''2024-03-02.md''), (738955 - 7, ''2024-03-03.md''),
        (738955 - 1, ''2024-03-09.md''), (738955, ''2024-3-10.md'')]
   \<and> note_todos window_example ''2024-03-02.md'' = [''eight'']
   \<and> note_todos window_example ''2024-03-03.md'' = [''seven'']
   \<and> note_todos window_example ''2024-3-10.md'' = [''today'']
   \<and> fst (create_daily_note window_example None) = Inr PyNone
   \<and> map_of (files (snd (create_daily_note window_example None))) ''2024-03-10.md'' =
       Some (Text (lines_text [''# 2024-03-10'', [], ''## Tasks'', ''- [ ] seven'', ''- [ ] nine'',
                               [], ''## Notes'', ''- '']))
   \<and> set (carried_todos window_example 738955) = {''seven'', ''nine''}"
proof -
  have t': "target_date window_example None = 738955"
    by (simp add: target_date_def window_example_def example_world_def)
  have a: "\<not> present window_example (note_name (target_date window_example None))"
    by (simp only: t' note_name_2024_03_10)
      (simp add: present_def window_example_def example_world_def)
  have k: "7 < target_date window_example None"
    by (simp add: t')
  have win: "window_notes window_example 738955 =
      [(738948, ''2024-03-03.md''), (738954, ''2024-03-09.md'')]"
    by (simp add: window_notes_def scan_window_example)
  have r3: "readable window_example ''2024-03-03.md''"
    and r9: "readable window_example ''2024-03-09.md''"
    by (simp_all add: readable_def read_text_def window_example_def example_world_def)
  have r: "\<forall>n \<in> set (window_notes window_example (target_date window_example None)).
             readable window_example (snd n)"
    by (simp add: t' win r3 r9)
  have w: "writable window_example"
    by (simp add: window_example_def example_world_def)
  have c: "carried_todos window_example 738955 = [''seven'', ''nine'']"
    by (simp add: carried_todos_def win note_todos_window_example first_seen_def)
  have name: "strftime 738955 = ''2024-03-10''"
    by (simp add: format_defs date_defs)
  have body: "render_body ''2024-03-10'' [''seven'', ''nine''] =
      lines_text [''# 2024-03-10'', [], ''## Tasks'', ''- [ ] seven'', ''- [ ] nine'', [],
                  ''## Notes'', ''- '']"
    by (simp add: render_body_def lines_text_def)
  have "fst (create_daily_note window_example None) = Inr PyNone
     \<and> map_of (files (snd (create_daily_note window_example None))) ''2024-03-10.md'' =
         Some (Text (lines_text [''# 2024-03-10'', [], ''## Tasks'', ''- [ ] seven'',
                                 ''- [ ] nine'', [], ''## Notes'', ''- '']))"
    using window_exact [OF a k r w]
    by (simp add: t' note_name_2024_03_10 c name body)
  then show ?thesis
    using a k r3 r9 w
    by (simp add: scan_window_example note_todos_window_example c)
qed


subsection \<open>The scan\<close>

text \<open>
  Claim C4 says that the scan returns exactly the entries whose stem is in the exact
  format of four digits, two digits and two digits. The scan of a directory with
  \<^verbatim>\<open>2024-3-5.md\<close> returns that entry, dated 2024-03-05, although its stem is not in
  the exact format (the stem of \<^verbatim>\<open>2024-03-04.md\<close> is).
\<close>

theorem exact_format_counterexample:
  "fst (get_all_notes lenient_example) =
     Inr [(738949, ''2024-03-04.md''), (738950, ''2024-3-5.md'')]
   \<and> stem ''2024-3-5.md'' = ''2024-3-5''
   \<and> \<not> exact_format (stem ''2024-3-5.md'')
   \<and> exact_format (stem ''2024-03-04.md'')"
proof -
  have "stem ''2024-3-5.md'' = ''2024-3-5''" "stem ''2024-03-04.md'' = ''2024-03-04''"
    using stem_md [of "''2024-3-5''"] stem_md [of "''2024-03-04''"] by simp_all
  then show ?thesis
    by (simp add: get_all_notes_eq scan_lenient_example exact_format_def is_digit_def)
qed

text \<open>
  Claim C4, amended. \<^verbatim>\<open>get_all_notes\<close> never fails. It returns exactly the entries of
  the directory whose name ends in \<^verbatim>\<open>.md\<close> and whose stem \<^verbatim>\<open>strptime\<close> accepts, each
  with the date of its stem, sorted ascending by date; an entry whose stem is rejected
  is skipped and is not in the result. The stems \<^verbatim>\<open>strptime\<close> accepts are those made
  of four digits, a hyphen, a month written as 1 to 9, 01 to 09 or 10 to 12, a hyphen
  and a day written as 1 to 9, 01 to 09, 10 to 31 or a blank and 1 to 9, for which the
  date exists (a year from 1 on, a day the month has): the exact format, and the same
  without the leading zero of the month or of the day.
\<close>

theorem get_all_notes_filter_sort:
  "get_all_notes w = (Inr (scan w), w\<lparr>trace := trace w @ [Glob]\<rparr>)
   \<and> set (scan w) =
       {(d, name). name \<in> set (map fst (files w)) \<and> ends_with ''.md'' name
                   \<and> strptime (stem name) = Inr d}
   \<and> sorted (map fst (scan w))
   \<and> (\<forall>s d. strptime s = Inr d \<longleftrightarrow>
         (\<exists>y m dd. s = y @ ''-'' @ m @ ''-'' @ dd \<and> length y = 4 \<and> list_all is_digit y
            \<and> month_field m \<and> day_field dd
            \<and> new_date (py_int y) (py_int m) (py_int dd) = Inr d))"
proof -
  have "get_all_notes w = (Inr (scan w), w\<lparr>trace := trace w @ [Glob]\<rparr>)"
    by (simp add: get_all_notes_eq log_event_def)
  moreover have "set (scan w) =
       {(d, name). name \<in> set (map fst (files w)) \<and> ends_with ''.md'' name
                   \<and> strptime (stem name) = Inr d}"
    by (auto simp: scan_eq set_dated md_names_def)
  moreover have "sorted (map fst (scan w))"
    by (simp add: scan_eq sorted_map_fst)
  ultimately show ?thesis
    using strptime_iff by blast
qed

theorem get_all_notes_filter_sort_witness:
  "get_all_notes lenient_example =
     (Inr [(738949, ''2024-03-04.md''), (738950, ''2024-3-5.md'')],
      lenient_example\<lparr>trace := [Glob]\<rparr>)
   \<and> month_field ''3'' \<and> day_field ''5'' \<and> length ''2024'' = 4 \<and> list_all is_digit ''2024''
   \<and> new_date (py_int ''2024'') (py_int ''3'') (py_int ''5'') = Inr 738950
   \<and> strptime ''2024-3-5'' = Inr 738950"
proof -
  have f: "month_field ''3''" "day_field ''5''" "length ''2024'' = 4" "list_all is_digit ''2024''"
    by (simp_all add: month_field_def day_field_def one_of_def is_digit_def)
  have n: "new_date (py_int ''2024'') (py_int ''3'') (py_int ''5'') = Inr 738950"
    by (simp add: py_int_def is_digit_def digit_val_def date_defs)
  have t: "trace lenient_example = []"
    by (simp add: lenient_example_def example_world_def)
  have "strptime (''2024'' @ ''-'' @ ''3'' @ ''-'' @ ''5'') = Inr 738950"
    using f n get_all_notes_filter_sort [of lenient_example] by blast
  then show ?thesis
    using f n get_all_notes_filter_sort [of lenient_example]
    by (simp add: scan_lenient_example t)
qed

text \<open>
  Claim C5 says that no two entries of the scan share a date. With the files
  \<^verbatim>\<open>2024-3-5.md\<close> and \<^verbatim>\<open>2024-03-05.md\<close> in the directory the scan returns both,
  with the same date.
\<close>

theorem one_note_per_date_counterexample:
  "fst (get_all_notes duplicate_example) =
     Inr [(738950, ''2024-03-05.md''), (738950, ''2024-3-5.md'')]
   \<and> \<not> distinct (map fst (scan duplicate_example))"
  by (simp add: get_all_notes_eq scan_duplicate_example)

text \<open>
  Claim C5, amended. In a directory (its entries have distinct names) the scan holds
  one entry for every file whose name ends in \<^verbatim>\<open>.md\<close> and whose stem
  \<^verbatim>\<open>strptime\<close> accepts, and nothing else: no two entries share a file name, and the
  entries are as many as those files, so that no file is left out or merged because
  another file has its date. Entries that share a date are all there, ordered by
  their names, the list being sorted by date and then name.
\<close>

theorem get_all_notes_one_per_name:
  assumes "distinct (map fst (files w))"
  shows "fst (get_all_notes w) = Inr (scan w)
     \<and> distinct (map snd (scan w))
     \<and> sorted (scan w)
     \<and> length (scan w) =
         length (filter (\<lambda>name. ends_with ''.md'' name \<and> parses (stem name)) (map fst (files w)))
     \<and> (\<forall>name d. (d, name) \<in> set (scan w) \<longleftrightarrow>
           name \<in> set (map fst (files w)) \<and> ends_with ''.md'' name
           \<and> strptime (stem name) = Inr d)"
proof -
  have 1: "fst (get_all_notes w) = Inr (scan w)"
    by (simp add: get_all_notes_eq)
  have "distinct (md_names w)"
    using assms by (simp add: md_names_def)
  then have 2: "distinct (map snd (scan w))"
    by (simp add: scan_eq distinct_map_snd_sort map_snd_dated)
  have 3: "sorted (scan w)"
    by (simp add: scan_eq)
  have "length (scan w) = length (map snd (dated (md_names w)))"
    by (simp add: scan_eq)
  then have 4: "length (scan w) =
      length (filter (\<lambda>name. ends_with ''.md'' name \<and> parses (stem name)) (map fst (files w)))"
    by (simp add: map_snd_dated md_names_def)
  have 5: "\<forall>name d. (d, name) \<in> set (scan w) \<longleftrightarrow>
           name \<in> set (map fst (files w)) \<and> ends_with ''.md'' name
           \<and> strptime (stem name) = Inr d"
    by (auto simp: scan_eq set_dated md_names_def)
  from 1 2 3 4 5 show ?thesis by blast
qed

theorem get_all_notes_one_per_name_witness:
  "distinct (map fst (files duplicate_example))
   \<and> fst (get_all_notes duplicate_example) =
       Inr [(738950, ''2024-03-05.md''), (738950, ''2024-3-5.md'')]
   \<and> distinct (map snd (scan duplicate_example))
   \<and> length (scan duplicate_example) = 2"
proof -
  have h: "distinct (map fst (files duplicate_example))"
    by (simp add: duplicate_example_def example_world_def)
  show ?thesis
    using h get_all_notes_one_per_name [OF h]
    by (simp add: scan_duplicate_example)
qed


end
